theory Spec2Isabelle
  imports Complex_Main "HOL-Library.AList"
begin

section \<open>A model of display-watcher\<close>

text \<open>
  The module \<open>display_watcher.py\<close>: the classes \<open>Port\<close>, \<open>Card\<close> and \<open>Watcher\<close>,
  \<open>enum_cards\<close>, and the loop of \<open>Watcher.run\<close>. Logging, the parsing of the command
  line and the keyboard interrupt caught by \<open>main\<close> are left out; none of them changes
  the state of a port, a card or the watcher.
\<close>

section \<open>Strings, paths and name patterns\<close>

text \<open>
  Python strings are modelled as \<open>string\<close>, lists of characters with code points below
  256. The three library functions the watcher applies to them are written out:
  \<open>str.strip()\<close>, \<open>os.path.join\<close> (POSIX flavour, two arguments) and \<open>re.match\<close> for
  the two fixed patterns of the module.
\<close>

definition newline :: char where
  "newline = CHR 0x0A"

text \<open>The characters below 256 for which Python's \<open>str.isspace\<close> holds.\<close>

definition isspace :: "char \<Rightarrow> bool" where
  "isspace c \<longleftrightarrow> c \<in> set [CHR 0x09, CHR 0x0A, CHR 0x0B, CHR 0x0C, CHR 0x0D,
                        CHR 0x1C, CHR 0x1D, CHR 0x1E, CHR 0x1F, CHR 0x20, CHR 0x85, CHR 0xA0]"

definition strip :: "string \<Rightarrow> string" where
  "strip s = rev (dropWhile isspace (rev (dropWhile isspace s)))"

definition path_join :: "string \<Rightarrow> string \<Rightarrow> string" where
  "path_join a b =
     (case b of
        c # _ \<Rightarrow>
          if c = CHR ''/'' then b
          else if a = [] \<or> last a = CHR ''/'' then a @ b
          else a @ ''/'' @ b
      | [] \<Rightarrow> if a = [] \<or> last a = CHR ''/'' then a @ b else a @ ''/'' @ b)"

definition DRM_PATH :: string where
  "DRM_PATH = ''/sys/class/drm''"

definition isdigit :: "char \<Rightarrow> bool" where
  "isdigit c \<longleftrightarrow> c \<in> set ''0123456789''"

text \<open>
  \<open>re.match(DRM_CARD_PATTERN, item)\<close> with the pattern \<open>card[0-9]+$\<close>: the match is
  anchored at the start of the name; \<open>$\<close> accepts the end of the name or a single
  newline that ends it.
\<close>

definition match_card :: "string \<Rightarrow> bool" where
  "match_card item \<longleftrightarrow>
     take 4 item = ''card'' \<and>
     (let ds = takeWhile isdigit (drop 4 item); tl = dropWhile isdigit (drop 4 item)
      in ds \<noteq> [] \<and> (tl = [] \<or> tl = [newline]))"

text \<open>
  \<open>re.match(DRM_PORT_PATTERN, item)\<close> with the pattern \<open>card[0-9]+.+\<close>: after
  \<open>card\<close> comes a digit, and after some run of digits a character other than newline
  (\<open>.\<close> does not match a newline). The run can always be cut after its first digit, so
  the name matches exactly when its fifth character is a digit and its sixth exists and
  is not a newline (lemma \<open>match_port_regex\<close> below).
\<close>

definition match_port :: "string \<Rightarrow> bool" where
  "match_port item \<longleftrightarrow>
     take 4 item = ''card'' \<and>
     (case drop 4 item of
        d # c # _ \<Rightarrow> isdigit d \<and> c \<noteq> newline
      | _ \<Rightarrow> False)"

section \<open>The environment\<close>

text \<open>
  What one poll can observe of the file system: \<open>listdir fs path\<close> is the result of
  \<open>os.listdir(path)\<close>, and \<open>readline fs path\<close> is what \<open>open(path)\<close> followed by
  \<open>f.readline()\<close> returns. \<open>None\<close> stands for the call raising (missing node,
  I/O error); the exception is the value \<open>OSError\<close> with the path concerned. One poll
  sees one file system; successive polls may see different ones.
\<close>

record fs =
  listdir :: "string \<Rightarrow> string list option"
  readline :: "string \<Rightarrow> string option"

datatype error = OSError string

section \<open>Port\<close>

record port =
  port_path :: string
  port_status :: "string option"
  port_previous_status :: "string option"
  port_changed :: bool

definition Port_init :: "string \<Rightarrow> port" where
  "Port_init path =
     \<lparr>port_path = path, port_status = None, port_previous_status = None, port_changed = False\<rparr>"

definition Port_connected :: "port \<Rightarrow> bool" where
  "Port_connected p \<longleftrightarrow> port_status p = Some ''connected''"

text \<open>The property \<open>Port.status\<close>: \<open>None\<close> and the empty string are both falsy.\<close>

definition Port_status :: "port \<Rightarrow> string" where
  "Port_status p =
     (case port_status p of
        None \<Rightarrow> ''none''
      | Some s \<Rightarrow> if s \<noteq> [] then s else ''none'')"

definition status_attr :: "port \<Rightarrow> string" where
  "status_attr p = path_join (port_path p) ''status''"

text \<open>
  \<open>Port.update\<close> mutates the object and may raise. The model returns the object as the
  call leaves it together with the exception, if any: the reset of \<open>_changed\<close> has
  already happened when \<open>open\<close> raises.
\<close>

definition Port_update :: "fs \<Rightarrow> port \<Rightarrow> port \<times> error option" where
  "Port_update env p0 =
     (let p1 = p0\<lparr>port_changed := False\<rparr>
      in case readline env (status_attr p1) of
           None \<Rightarrow> (p1, Some (OSError (status_attr p1)))
         | Some line \<Rightarrow>
             let status_str = strip line;
                 p2 = p1\<lparr>port_previous_status := port_status p1\<rparr>;
                 p3 = p2\<lparr>port_status := Some status_str\<rparr>;
                 p4 = p3\<lparr>port_changed := (port_status p3 \<noteq> port_previous_status p3)\<rparr>
             in (p4, None))"

section \<open>Card\<close>

text \<open>
  The dictionary \<open>_ports\<close> is an association list in insertion order, which is the
  order Python iterates it in. \<open>AList.update\<close> is \<open>d[k] = v\<close> (a new key goes to the
  end), \<open>AList.delete\<close> is \<open>del d[k]\<close>.
\<close>

record card =
  card_path :: string
  card_ports :: "(string \<times> port) list"
  card_changed :: bool

definition Card_init :: "string \<Rightarrow> card" where
  "Card_init path = \<lparr>card_path = path, card_ports = [], card_changed = False\<rparr>"

definition Card_enum_ports :: "fs \<Rightarrow> card \<Rightarrow> string list option" where
  "Card_enum_ports env c = map_option (filter match_port) (listdir env (card_path c))"

text \<open>
  A Python set is a list without repetitions. Python does not specify the order in which
  it iterates a set; the model takes the order of the list. In \<open>Card.update\<close> that
  order only decides in which order new names enter the dictionary, and so which of
  several new ports is read first. The statements below speak of the set of names and of
  the port found under a name.
\<close>

definition set_minus :: "string list \<Rightarrow> string list \<Rightarrow> string list" where
  "set_minus xs ys = filter (\<lambda>x. x \<notin> set ys) xs"

definition add_port :: "string \<Rightarrow> card \<Rightarrow> card" where
  "add_port name c =
     c\<lparr>card_ports := AList.update name (Port_init (path_join (card_path c) name)) (card_ports c)\<rparr>"

definition remove_port :: "string \<Rightarrow> card \<Rightarrow> card" where
  "remove_port name c = c\<lparr>card_ports := AList.delete name (card_ports c)\<rparr>"

text \<open>
  The first part of \<open>Card.update\<close>, up to and including the two loops that add and
  remove entries (the reconciliation of the membership).
\<close>

definition Card_reconcile :: "fs \<Rightarrow> card \<Rightarrow> card \<times> error option" where
  "Card_reconcile env c0 =
     (let c1 = c0\<lparr>card_changed := False\<rparr>
      in case Card_enum_ports env c1 of
           None \<Rightarrow> (c1, Some (OSError (card_path c1)))
         | Some names \<Rightarrow>
             let new_port_names_set = remdups names;
                 current_port_names_set = remdups (map fst (card_ports c1));
                 added_ports = set_minus new_port_names_set current_port_names_set;
                 c2 = (if added_ports \<noteq> [] then c1\<lparr>card_changed := True\<rparr> else c1);
                 c3 = fold add_port added_ports c2;
                 removed_ports = set_minus current_port_names_set new_port_names_set;
                 c4 = (if removed_ports \<noteq> [] then c3\<lparr>card_changed := True\<rparr> else c3);
                 c5 = fold remove_port removed_ports c4
             in (c5, None))"

text \<open>
  The last loop of \<open>Card.update\<close>: every port of the dictionary is updated in turn and
  its flag is or-ed into the card's. An exception leaves the loop at once; the ports
  already visited keep their new state, the others are untouched.
\<close>

fun update_ports ::
  "fs \<Rightarrow> (string \<times> port) list \<Rightarrow> bool \<Rightarrow> ((string \<times> port) list \<times> bool) \<times> error option" where
  "update_ports env [] ch = (([], ch), None)"
| "update_ports env ((name, p) # rest) ch =
     (case Port_update env p of
        (p', Some e) \<Rightarrow> (((name, p') # rest, ch), Some e)
      | (p', None) \<Rightarrow>
          (case update_ports env rest (ch \<or> port_changed p') of
             ((rest', ch'), r) \<Rightarrow> (((name, p') # rest', ch'), r)))"

definition Card_update :: "fs \<Rightarrow> card \<Rightarrow> card \<times> error option" where
  "Card_update env c0 =
     (case Card_reconcile env c0 of
        (c, Some e) \<Rightarrow> (c, Some e)
      | (c, None) \<Rightarrow>
          (case update_ports env (card_ports c) (card_changed c) of
             ((ps, ch), r) \<Rightarrow> (c\<lparr>card_ports := ps, card_changed := ch\<rparr>, r)))"

definition enum_cards :: "fs \<Rightarrow> error + card list" where
  "enum_cards env =
     (case listdir env DRM_PATH of
        None \<Rightarrow> Inl (OSError DRM_PATH)
      | Some items \<Rightarrow>
          Inr (map Card_init (map (path_join DRM_PATH) (filter match_card items))))"

section \<open>Watcher\<close>

record watcher =
  watcher_cards :: "card list"
  watcher_changed :: bool

definition Watcher_init :: "fs \<Rightarrow> error + watcher" where
  "Watcher_init env =
     (case enum_cards env of
        Inl e \<Rightarrow> Inl e
      | Inr cs \<Rightarrow> Inr \<lparr>watcher_cards = cs, watcher_changed = False\<rparr>)"

fun update_cards :: "fs \<Rightarrow> card list \<Rightarrow> bool \<Rightarrow> (card list \<times> bool) \<times> error option" where
  "update_cards env [] ch = (([], ch), None)"
| "update_cards env (c # rest) ch =
     (case Card_update env c of
        (c', Some e) \<Rightarrow> ((c' # rest, ch), Some e)
      | (c', None) \<Rightarrow>
          (case update_cards env rest (ch \<or> card_changed c') of
             ((rest', ch'), r) \<Rightarrow> ((c' # rest', ch'), r)))"

definition Watcher_poll :: "fs \<Rightarrow> watcher \<Rightarrow> watcher \<times> error option" where
  "Watcher_poll env w0 =
     (let w1 = w0\<lparr>watcher_changed := False\<rparr>
      in case update_cards env (watcher_cards w1) (watcher_changed w1) of
           ((cs, ch), r) \<Rightarrow> (w1\<lparr>watcher_cards := cs, watcher_changed := ch\<rparr>, r))"

section \<open>The polling loop\<close>

text \<open>
  Of the command line, \<open>Watcher.run\<close> uses the polling rate and the command (the
  verbosity only selects the log level). Clock readings and the rate are floats in the
  source and real numbers here. The loop never ends by itself, so it is run over the
  inputs of finitely many iterations: each iteration reads the clock, may poll the file
  system and start the command, and reads the clock again to compute how long to sleep.
  The calls of \<open>subprocess.run\<close> and \<open>time.sleep\<close> are recorded in order, each when it
  is made; \<open>spawn_error\<close> is the exception \<open>subprocess.run\<close> raises when the command
  cannot be started (with \<open>check=False\<close> its exit status raises nothing).
\<close>

record args =
  polling_rate :: real
  cmd :: "string list"

datatype effect = Ran "string list" | Slept real

record run_state =
  run_watcher :: watcher
  deadline :: real
  effects :: "effect list"

record tick =
  now_check :: real
  tick_fs :: fs
  spawn_error :: "error option"
  now_sleep :: real

definition sleep_until_deadline :: "tick \<Rightarrow> run_state \<Rightarrow> run_state \<times> error option" where
  "sleep_until_deadline t s =
     (let sleep_time = max 0 (deadline s - now_sleep t)
      in (s\<lparr>effects := effects s @ [Slept sleep_time]\<rparr>, None))"

definition run_tick :: "args \<Rightarrow> tick \<Rightarrow> run_state \<Rightarrow> run_state \<times> error option" where
  "run_tick a t s =
     (if now_check t \<ge> deadline s then
        (case Watcher_poll (tick_fs t) (run_watcher s) of
           (w, Some e) \<Rightarrow> (s\<lparr>run_watcher := w\<rparr>, Some e)
         | (w, None) \<Rightarrow>
             let s1 = s\<lparr>run_watcher := w\<rparr>
             in if watcher_changed w then
                  (let s2 = s1\<lparr>effects := effects s1 @ [Ran (cmd a)]\<rparr>
                   in case spawn_error t of
                        Some e \<Rightarrow> (s2, Some e)
                      | None \<Rightarrow>
                          sleep_until_deadline t (s2\<lparr>deadline := deadline s2 + polling_rate a\<rparr>))
                else sleep_until_deadline t (s1\<lparr>deadline := deadline s1 + polling_rate a\<rparr>))
      else sleep_until_deadline t s)"

fun run_loop :: "args \<Rightarrow> tick list \<Rightarrow> run_state \<Rightarrow> run_state \<times> error option" where
  "run_loop a [] s = (s, None)"
| "run_loop a (t # ts) s =
     (case run_tick a t s of
        (s', Some e) \<Rightarrow> (s', Some e)
      | (s', None) \<Rightarrow> run_loop a ts s')"

text \<open>
  \<open>Watcher.run\<close>: the first poll, the first clock reading, then the loop. When the
  first poll raises, no deadline has been set yet.
\<close>

datatype run_result = Baseline_failed watcher error | Looping run_state "error option"

definition Watcher_run :: "args \<Rightarrow> fs \<Rightarrow> real \<Rightarrow> tick list \<Rightarrow> watcher \<Rightarrow> run_result" where
  "Watcher_run a env0 now0 ts w0 =
     (case Watcher_poll env0 w0 of
        (w, Some e) \<Rightarrow> Baseline_failed w e
      | (w, None) \<Rightarrow>
          (case run_loop a ts \<lparr>run_watcher = w, deadline = now0, effects = []\<rparr> of
             (s, r) \<Rightarrow> Looping s r))"

section \<open>Notions used in the statements\<close>

text \<open>
  \<open>reconciled_ports names c\<close> is the dictionary that the reconciliation is shown to
  produce when the card's directory lists \<open>names\<close>: the entries that stay, in their
  order, then a fresh port for every new name. \<open>readable\<close> says that every status
  attribute of a dictionary can be read. \<open>status_read\<close> is the text a successful update
  stores, \<open>Port_updates\<close> the updates of successive ticks on one port (the exception, if
  any, dropped), \<open>polls\<close> the same for the watcher.
\<close>

definition reconciled_ports :: "string list \<Rightarrow> card \<Rightarrow> (string \<times> port) list" where
  "reconciled_ports names c =
     filter (\<lambda>e. fst e \<in> set names) (card_ports c) @
     map (\<lambda>n. (n, Port_init (path_join (card_path c) n)))
       (set_minus (remdups names) (remdups (map fst (card_ports c))))"

definition readable :: "fs \<Rightarrow> (string \<times> port) list \<Rightarrow> bool" where
  "readable env ps \<longleftrightarrow> list_all (\<lambda>e. readline env (status_attr (snd e)) \<noteq> None) ps"

definition status_read :: "fs \<Rightarrow> port \<Rightarrow> string option" where
  "status_read env p = map_option strip (readline env (status_attr p))"

definition Port_updates :: "fs list \<Rightarrow> port \<Rightarrow> port" where
  "Port_updates envs p = fold (\<lambda>env q. fst (Port_update env q)) envs p"

definition polls :: "fs \<Rightarrow> nat \<Rightarrow> watcher \<Rightarrow> watcher" where
  "polls env k w = ((\<lambda>w. fst (Watcher_poll env w)) ^^ k) w"

section \<open>Flags set before an update\<close>

text \<open>
  \<open>mark_watcher b w\<close> is \<open>w\<close> with every \<open>changed\<close> flag, at all three levels, set
  to \<open>b\<close>. Two dictionary entries are the same up to the flag when they are equal once
  the flags are cleared.
\<close>

definition mark_port :: "bool \<Rightarrow> port \<Rightarrow> port" where
  "mark_port b p = p\<lparr>port_changed := b\<rparr>"

definition mark_ports :: "bool \<Rightarrow> (string \<times> port) list \<Rightarrow> (string \<times> port) list" where
  "mark_ports b ps = map (\<lambda>e. (fst e, mark_port b (snd e))) ps"

definition mark_card :: "bool \<Rightarrow> card \<Rightarrow> card" where
  "mark_card b c = c\<lparr>card_ports := mark_ports b (card_ports c), card_changed := b\<rparr>"

definition mark_watcher :: "bool \<Rightarrow> watcher \<Rightarrow> watcher" where
  "mark_watcher b w = w\<lparr>watcher_cards := map (mark_card b) (watcher_cards w), watcher_changed := b\<rparr>"

definition same_entry :: "string \<times> port \<Rightarrow> string \<times> port \<Rightarrow> bool" where
  "same_entry e e' \<longleftrightarrow>
     fst e = fst e' \<and> (snd e)\<lparr>port_changed := False\<rparr> = (snd e')\<lparr>port_changed := False\<rparr>"

section \<open>State that agrees with the file system\<close>

text \<open>
  A port agrees with the file system when its attribute can be read and holds the status
  the port has stored; a card, when its directory lists exactly the names of its
  dictionary and every port agrees; a watcher, when every card does.
\<close>

definition in_sync :: "fs \<Rightarrow> port \<Rightarrow> bool" where
  "in_sync env p \<longleftrightarrow>
     readline env (status_attr p) \<noteq> None \<and>
     port_status p = map_option strip (readline env (status_attr p))"

definition card_in_sync :: "fs \<Rightarrow> card \<Rightarrow> bool" where
  "card_in_sync env c \<longleftrightarrow>
     (case Card_enum_ports env c of
        None \<Rightarrow> False
      | Some names \<Rightarrow> set names = fst ` set (card_ports c)) \<and>
     list_all (\<lambda>e. in_sync env (snd e)) (card_ports c)"

definition watcher_in_sync :: "fs \<Rightarrow> watcher \<Rightarrow> bool" where
  "watcher_in_sync env w \<longleftrightarrow> list_all (card_in_sync env) (watcher_cards w)"

section \<open>Observations of the loop\<close>

text \<open>
  \<open>fired\<close> counts the iterations that found the deadline reached, and \<open>loop_polls\<close>
  lists the results (the watcher's \<open>changed\<close> flag) of the polls made inside the loop,
  both up to the first exception.
\<close>

definition is_Ran :: "effect \<Rightarrow> bool" where
  "is_Ran x = (case x of Ran _ \<Rightarrow> True | Slept _ \<Rightarrow> False)"

fun fired :: "args \<Rightarrow> tick list \<Rightarrow> run_state \<Rightarrow> nat" where
  "fired a [] s = 0"
| "fired a (t # ts) s =
     (case run_tick a t s of
        (s', Some e) \<Rightarrow> 0
      | (s', None) \<Rightarrow> (if now_check t \<ge> deadline s then 1 else 0) + fired a ts s')"

fun loop_polls :: "args \<Rightarrow> tick list \<Rightarrow> run_state \<Rightarrow> bool list" where
  "loop_polls a [] s = []"
| "loop_polls a (t # ts) s =
     (let here =
        (if now_check t \<ge> deadline s then
           (case Watcher_poll (tick_fs t) (run_watcher s) of
              (w, Some e) \<Rightarrow> []
            | (w, None) \<Rightarrow> [watcher_changed w])
         else [])
      in case run_tick a t s of
           (s', Some e) \<Rightarrow> here
         | (s', None) \<Rightarrow> here @ loop_polls a ts s')"

section \<open>An example system\<close>

text \<open>
  One card \<open>card0\<close> under \<open>/sys/class/drm\<close>, with the connectors named in the first
  argument of \<open>demo_fs\<close> and the status files given in the second; the other entries
  are the ones such directories usually hold. The polling rate of \<open>demo_args\<close> is the
  default of the command line, 0.2.
\<close>

definition demo_fs :: "string list \<Rightarrow> (string \<times> string) list \<Rightarrow> fs" where
  "demo_fs ports files =
     \<lparr>listdir = map_of
        [(''/sys/class/drm'', ''card0'' # ports @ [''renderD128'', ''version'']),
         (''/sys/class/drm/card0'', ports @ [''dev'', ''device'', ''power'', ''uevent''])],
      readline = map_of files\<rparr>"

definition hdmi :: string where
  "hdmi = ''card0-HDMI-A-1''"

definition dp1 :: string where
  "dp1 = ''card0-DP-1''"

definition dp2 :: string where
  "dp2 = ''card0-DP-2''"

definition card0_path :: string where
  "card0_path = ''/sys/class/drm/card0''"

definition hdmi_path :: string where
  "hdmi_path = ''/sys/class/drm/card0/card0-HDMI-A-1''"

definition hdmi_status :: string where
  "hdmi_status = ''/sys/class/drm/card0/card0-HDMI-A-1/status''"

definition line_connected :: string where
  "line_connected = ''connected'' @ [newline]"

definition line_disconnected :: string where
  "line_disconnected = ''disconnected'' @ [newline]"

definition hdmi_reads :: "string \<Rightarrow> fs" where
  "hdmi_reads line = demo_fs [hdmi] [(hdmi_status, line)]"

definition dp1_plugged :: fs where
  "dp1_plugged =
     demo_fs [hdmi, dp1]
       [(hdmi_status, line_disconnected),
        (''/sys/class/drm/card0/card0-DP-1/status'', line_disconnected)]"

definition dp1_replaced :: fs where
  "dp1_replaced =
     demo_fs [dp2, hdmi]
       [(hdmi_status, line_connected),
        (''/sys/class/drm/card0/card0-DP-2/status'', line_disconnected)]"

definition hdmi_unreadable :: fs where
  "hdmi_unreadable =
     demo_fs [hdmi, dp1] [(''/sys/class/drm/card0/card0-DP-1/status'', line_connected)]"

definition dp1_unreadable :: fs where
  "dp1_unreadable = demo_fs [hdmi, dp1] [(hdmi_status, line_connected)]"

definition dp1_status :: string where
  "dp1_status = ''/sys/class/drm/card0/card0-DP-1/status''"

definition hdmi_seen :: "string \<Rightarrow> string option \<Rightarrow> bool \<Rightarrow> port" where
  "hdmi_seen now prev ch =
     \<lparr>port_path = hdmi_path, port_status = Some now, port_previous_status = prev,
      port_changed = ch\<rparr>"

definition dp1_seen :: "string \<Rightarrow> string option \<Rightarrow> bool \<Rightarrow> port" where
  "dp1_seen now prev ch =
     \<lparr>port_path = ''/sys/class/drm/card0/card0-DP-1'', port_status = Some now,
      port_previous_status = prev, port_changed = ch\<rparr>"

definition demo_card :: card where
  "demo_card = Card_init card0_path"

definition one_port :: card where
  "one_port =
     \<lparr>card_path = card0_path,
      card_ports = [(hdmi, hdmi_seen ''disconnected'' None True)],
      card_changed = False\<rparr>"

definition two_ports :: card where
  "two_ports =
     \<lparr>card_path = card0_path,
      card_ports = [(hdmi, hdmi_seen ''disconnected'' (Some ''connected'') True),
                    (dp1, dp1_seen ''disconnected'' None True)],
      card_changed = True\<rparr>"

definition demo_watcher :: watcher where
  "demo_watcher = \<lparr>watcher_cards = [demo_card], watcher_changed = False\<rparr>"

definition demo_synced :: watcher where
  "demo_synced =
     \<lparr>watcher_cards =
        [\<lparr>card_path = card0_path,
          card_ports = [(hdmi, hdmi_seen ''connected'' None True)],
          card_changed = True\<rparr>],
      watcher_changed = True\<rparr>"

definition two_ports_watcher :: watcher where
  "two_ports_watcher = \<lparr>watcher_cards = [two_ports], watcher_changed = True\<rparr>"

definition demo_args :: args where
  "demo_args = \<lparr>polling_rate = 2 / 10, cmd = [''xrandr'', ''--auto'']\<rparr>"

definition start_state :: "watcher \<Rightarrow> run_state" where
  "start_state w = \<lparr>run_watcher = w, deadline = 100, effects = []\<rparr>"

definition demo_tick :: "real \<Rightarrow> string \<Rightarrow> tick" where
  "demo_tick now line =
     \<lparr>now_check = now, tick_fs = hdmi_reads line, spawn_error = None, now_sleep = now\<rparr>"

definition unreadable_tick :: "real \<Rightarrow> tick" where
  "unreadable_tick now =
     \<lparr>now_check = now, tick_fs = hdmi_unreadable, spawn_error = None, now_sleep = now\<rparr>"

definition dp1_unreadable_tick :: "real \<Rightarrow> tick" where
  "dp1_unreadable_tick now =
     \<lparr>now_check = now, tick_fs = dp1_unreadable, spawn_error = None, now_sleep = now\<rparr>"

section \<open>The name patterns as regular expressions\<close>

lemma digit_not_newline: "isdigit c \<Longrightarrow> c \<noteq> newline"
  by (auto simp: isdigit_def newline_def)

text \<open>
  The two matchers against the regular expressions they stand for: a matching name is
  \<open>card\<close>, a non-empty run of digits and, for a port, at least one more character that
  is not a newline; for a card, nothing more, or one final newline.
\<close>

lemma match_port_regex:
  "match_port item \<longleftrightarrow>
     (\<exists>ds c rest. item = ''card'' @ ds @ c # rest \<and> ds \<noteq> [] \<and> list_all isdigit ds \<and>
        c \<noteq> newline)"
proof
  assume m: "match_port item"
  then obtain d c rest where pre: "take 4 item = ''card''" and suf: "drop 4 item = d # c # rest"
    and ok: "isdigit d" "c \<noteq> newline"
    by (auto simp: match_port_def split: list.splits)
  have "item = take 4 item @ drop 4 item" by simp
  then have "item = ''card'' @ [d] @ c # rest" unfolding pre suf by simp
  with ok show "\<exists>ds c rest. item = ''card'' @ ds @ c # rest \<and> ds \<noteq> [] \<and> list_all isdigit ds \<and>
        c \<noteq> newline"
    by (intro exI [of _ "[d]"] exI [of _ c] exI [of _ rest]) simp
next
  assume "\<exists>ds c rest. item = ''card'' @ ds @ c # rest \<and> ds \<noteq> [] \<and> list_all isdigit ds \<and>
        c \<noteq> newline"
  then obtain ds c rest where item: "item = ''card'' @ ds @ c # rest" and ne: "ds \<noteq> []"
    and digits: "list_all isdigit ds" and c: "c \<noteq> newline"
    by blast
  from ne obtain d ds' where ds: "ds = d # ds'" by (cases ds) auto
  show "match_port item"
  proof (cases ds')
    case Nil
    with item ds digits c show ?thesis by (simp add: match_port_def)
  next
    case (Cons d' ds'')
    with digits ds have "isdigit d'" by simp
    then have "d' \<noteq> newline" by (rule digit_not_newline)
    with item ds Cons digits show ?thesis by (simp add: match_port_def)
  qed
qed

lemma match_card_regex:
  "match_card item \<longleftrightarrow>
     (\<exists>ds. ds \<noteq> [] \<and> list_all isdigit ds \<and>
        (item = ''card'' @ ds \<or> item = ''card'' @ ds @ [newline]))"
proof
  assume m: "match_card item"
  define ds where "ds = takeWhile isdigit (drop 4 item)"
  define tl where "tl = dropWhile isdigit (drop 4 item)"
  from m have pre: "take 4 item = ''card''" and ne: "ds \<noteq> []" and tl: "tl = [] \<or> tl = [newline]"
    by (simp_all add: match_card_def Let_def ds_def tl_def)
  have digits: "list_all isdigit ds"
    by (auto simp: ds_def list_all_iff dest: set_takeWhileD)
  have "item = take 4 item @ ds @ tl"
    by (simp add: ds_def tl_def)
  with pre tl have "item = ''card'' @ ds \<or> item = ''card'' @ ds @ [newline]"
    by auto
  with ne digits show "\<exists>ds. ds \<noteq> [] \<and> list_all isdigit ds \<and>
        (item = ''card'' @ ds \<or> item = ''card'' @ ds @ [newline])"
    by blast
next
  assume "\<exists>ds. ds \<noteq> [] \<and> list_all isdigit ds \<and>
        (item = ''card'' @ ds \<or> item = ''card'' @ ds @ [newline])"
  then obtain ds where ne: "ds \<noteq> []" and digits: "list_all isdigit ds"
    and item: "item = ''card'' @ ds \<or> item = ''card'' @ ds @ [newline]"
    by blast
  have all: "\<And>x. x \<in> set ds \<Longrightarrow> isdigit x"
    using digits by (simp add: list_all_iff)
  have nl: "\<not> isdigit newline"
    using digit_not_newline by blast
  have tw: "takeWhile isdigit ds = ds" and dw: "dropWhile isdigit ds = []"
    using all by (simp_all add: takeWhile_eq_all_conv)
  from item show "match_card item"
  proof
    assume "item = ''card'' @ ds"
    then show ?thesis
      using ne by (simp add: match_card_def Let_def tw dw)
  next
    assume "item = ''card'' @ ds @ [newline]"
    then show ?thesis
      using ne all nl by (simp add: match_card_def Let_def takeWhile_append2 dropWhile_append2 tw dw)
  qed
qed

section \<open>The example system as the program reaches it\<close>

text \<open>
  The watcher of the example is the one \<open>Watcher()\<close> builds; its first poll discovers
  HDMI-A-1 connected; a poll that then finds DP-1 plugged in and HDMI-A-1 disconnected
  leaves the card with two ports.
\<close>

lemma demo_watcher_initial: "Watcher_init (hdmi_reads line_connected) = Inr demo_watcher"
  by code_simp

lemma demo_synced_reached:
  "Watcher_poll (hdmi_reads line_connected) demo_watcher = (demo_synced, None)"
  by code_simp

lemma two_ports_watcher_reached:
  "Watcher_poll dp1_plugged demo_synced = (two_ports_watcher, None)"
  by code_simp

section \<open>Port: one update\<close>

lemma Port_update_ok:
  "readline env (status_attr p) = Some line \<Longrightarrow>
   Port_update env p =
     (p\<lparr>port_previous_status := port_status p, port_status := Some (strip line),
        port_changed := (Some (strip line) \<noteq> port_status p)\<rparr>, None)"
  by (simp add: Port_update_def status_attr_def Let_def)

lemma Port_update_fails:
  "readline env (status_attr p) = None \<Longrightarrow>
   Port_update env p = (p\<lparr>port_changed := False\<rparr>, Some (OSError (status_attr p)))"
  by (simp add: Port_update_def status_attr_def Let_def)

text \<open>
  C5. A port that has just been created reports a change on its first successful update,
  whatever text was read: the text is compared with the never-read state \<open>None\<close>, which
  no text equals.
\<close>

theorem first_update_changed:
  "readline env (status_attr (Port_init path)) = Some line \<Longrightarrow>
   port_changed (fst (Port_update env (Port_init path)))"
  by (simp add: Port_update_ok) (simp add: Port_init_def)

text \<open>
  The first read of a fresh port, here of a disconnected connector.
\<close>

theorem first_update_changed_witness:
  "readline (hdmi_reads line_disconnected) (status_attr (Port_init hdmi_path)) =
     Some line_disconnected \<and>
   port_changed (fst (Port_update (hdmi_reads line_disconnected) (Port_init hdmi_path)))"
proof -
  have h: "readline (hdmi_reads line_disconnected) (status_attr (Port_init hdmi_path)) =
      Some line_disconnected"
    by code_simp
  from h first_update_changed [OF h] show ?thesis by simp
qed

lemma status_attr_update [simp]: "status_attr (fst (Port_update env p)) = status_attr p"
  by (simp add: Port_update_def status_attr_def Let_def split: option.splits)

lemma port_path_update [simp]: "port_path (fst (Port_update env p)) = port_path p"
  by (simp add: Port_update_def Let_def split: option.splits)

lemma Port_update_flag_reset: "Port_update env (p\<lparr>port_changed := b\<rparr>) = Port_update env p"
  by (simp add: Port_update_def status_attr_def Let_def split: option.splits)

section \<open>Card: reconciliation of the membership\<close>

lemma alist_update_fresh: "k \<notin> fst ` set al \<Longrightarrow> AList.update k v al = al @ [(k, v)]"
  by (induction al) auto

lemma fold_add_port_path [simp]: "card_path (fold add_port ns c) = card_path c"
  by (induction ns arbitrary: c) (simp_all add: add_port_def)

lemma fold_add_port_changed [simp]: "card_changed (fold add_port ns c) = card_changed c"
  by (induction ns arbitrary: c) (simp_all add: add_port_def)

lemma fold_add_port_fresh:
  "distinct ns \<Longrightarrow> set ns \<inter> fst ` set (card_ports c) = {} \<Longrightarrow>
   card_ports (fold add_port ns c) =
     card_ports c @ map (\<lambda>n. (n, Port_init (path_join (card_path c) n))) ns"
proof (induction ns arbitrary: c)
  case Nil
  then show ?case by simp
next
  case (Cons n ns)
  have fresh: "n \<notin> fst ` set (card_ports c)" using Cons.prems by auto
  have step: "card_ports (add_port n c) = card_ports c @ [(n, Port_init (path_join (card_path c) n))]"
    by (simp add: add_port_def alist_update_fresh [OF fresh])
  have "set ns \<inter> fst ` set (card_ports (add_port n c)) = {}"
    using Cons.prems by (auto simp: step)
  with Cons.IH [of "add_port n c"] Cons.prems show ?case
    by (simp add: step) (simp add: add_port_def)
qed

lemma fold_remove_port_path [simp]: "card_path (fold remove_port ns c) = card_path c"
  by (induction ns arbitrary: c) (simp_all add: remove_port_def)

lemma fold_remove_port_changed [simp]: "card_changed (fold remove_port ns c) = card_changed c"
  by (induction ns arbitrary: c) (simp_all add: remove_port_def)

lemma fold_remove_port_filter:
  "card_ports (fold remove_port ns c) = filter (\<lambda>e. fst e \<notin> set ns) (card_ports c)"
proof (induction ns arbitrary: c)
  case Nil
  then show ?case by simp
next
  case (Cons n ns)
  have "card_ports (remove_port n c) = filter (\<lambda>e. fst e \<noteq> n) (card_ports c)"
    by (auto simp: remove_port_def AList.delete_eq case_prod_unfold intro!: filter_cong)
  with Cons.IH [of "remove_port n c"] show ?case
    by (auto intro!: filter_cong)
qed

lemma Card_enum_ports_flag [simp]:
  "Card_enum_ports env (c\<lparr>card_changed := b\<rparr>) = Card_enum_ports env c"
  by (simp add: Card_enum_ports_def)

lemma set_set_minus [simp]: "set (set_minus xs ys) = set xs - set ys"
  by (auto simp: set_minus_def)

lemma distinct_set_minus [simp]: "distinct xs \<Longrightarrow> distinct (set_minus xs ys)"
  by (simp add: set_minus_def)

lemma Card_reconcile_fails:
  "Card_enum_ports env c = None \<Longrightarrow>
   Card_reconcile env c = (c\<lparr>card_changed := False\<rparr>, Some (OSError (card_path c)))"
  by (simp add: Card_reconcile_def)

lemma Card_reconcile_ok:
  assumes "Card_enum_ports env c = Some names"
  shows "Card_reconcile env c =
     (c\<lparr>card_ports := reconciled_ports names c,
        card_changed := (set names \<noteq> fst ` set (card_ports c))\<rparr>, None)"
proof -
  define c1 where "c1 = c\<lparr>card_changed := False\<rparr>"
  define added where "added = set_minus (remdups names) (remdups (map fst (card_ports c)))"
  define removed where "removed = set_minus (remdups (map fst (card_ports c))) (remdups names)"
  define c2 where "c2 = (if added \<noteq> [] then c1\<lparr>card_changed := True\<rparr> else c1)"
  define c3 where "c3 = fold add_port added c2"
  define c4 where "c4 = (if removed \<noteq> [] then c3\<lparr>card_changed := True\<rparr> else c3)"
  define c5 where "c5 = fold remove_port removed c4"
  have unfolded: "Card_reconcile env c = (c5, None)"
    using assms
    by (simp add: Card_reconcile_def Let_def c5_def c4_def c3_def c2_def c1_def added_def removed_def)
  have ports2: "card_ports c2 = card_ports c" and path2: "card_path c2 = card_path c"
    by (simp_all add: c2_def c1_def)
  have "distinct added" and "set added \<inter> fst ` set (card_ports c2) = {}"
    by (auto simp: added_def ports2)
  then have ports3: "card_ports c3 =
      card_ports c @ map (\<lambda>n. (n, Port_init (path_join (card_path c) n))) added"
    unfolding c3_def by (simp add: fold_add_port_fresh ports2 path2)
  have ports4: "card_ports c4 = card_ports c3"
    by (simp add: c4_def)
  have keep_old: "filter (\<lambda>e. fst e \<notin> set removed) (card_ports c) =
      filter (\<lambda>e. fst e \<in> set names) (card_ports c)"
    by (rule filter_cong) (auto simp: removed_def)
  have keep_new: "filter (\<lambda>e. fst e \<notin> set removed)
        (map (\<lambda>n. (n, Port_init (path_join (card_path c) n))) added) =
      map (\<lambda>n. (n, Port_init (path_join (card_path c) n))) added"
    by (auto simp: filter_map o_def removed_def added_def filter_id_conv)
  have ports5: "card_ports c5 = reconciled_ports names c"
    unfolding c5_def fold_remove_port_filter ports4 ports3 filter_append keep_old keep_new
    by (simp add: reconciled_ports_def added_def)
  have path5: "card_path c5 = card_path c"
    by (simp add: c5_def c4_def c3_def c2_def c1_def)
  have "card_changed c5 \<longleftrightarrow> added \<noteq> [] \<or> removed \<noteq> []"
    by (simp add: c5_def c4_def c3_def c2_def c1_def)
  also have "\<dots> \<longleftrightarrow> set names \<noteq> fst ` set (card_ports c)"
  proof -
    have "added = [] \<longleftrightarrow> set names \<subseteq> fst ` set (card_ports c)"
      unfolding set_empty [symmetric] by (auto simp: added_def)
    moreover have "removed = [] \<longleftrightarrow> fst ` set (card_ports c) \<subseteq> set names"
      unfolding set_empty [symmetric] by (auto simp: removed_def)
    ultimately show ?thesis by auto
  qed
  finally have changed5: "card_changed c5 \<longleftrightarrow> set names \<noteq> fst ` set (card_ports c)" .
  have "c5 = c\<lparr>card_ports := reconciled_ports names c,
        card_changed := (set names \<noteq> fst ` set (card_ports c))\<rparr>"
    by (rule card.equality) (simp_all add: ports5 path5 changed5)
  with unfolded show ?thesis by simp
qed

lemma reconciled_ports_keys: "fst ` set (reconciled_ports names c) = set names"
proof
  show "fst ` set (reconciled_ports names c) \<subseteq> set names"
    by (auto simp: reconciled_ports_def)
  show "set names \<subseteq> fst ` set (reconciled_ports names c)"
  proof
    fix n assume n: "n \<in> set names"
    show "n \<in> fst ` set (reconciled_ports names c)"
    proof (cases "n \<in> fst ` set (card_ports c)")
      case True
      then obtain e where "e \<in> set (card_ports c)" "fst e = n" by auto
      with n have "e \<in> set (reconciled_ports names c)" by (simp add: reconciled_ports_def)
      with \<open>fst e = n\<close> show ?thesis by force
    next
      case False
      with n have "(n, Port_init (path_join (card_path c) n)) \<in> set (reconciled_ports names c)"
        by (simp add: reconciled_ports_def)
      then show ?thesis by force
    qed
  qed
qed

lemma reconciled_ports_stable:
  "set names = fst ` set (card_ports c) \<Longrightarrow> reconciled_ports names c = card_ports c"
  by (auto simp: reconciled_ports_def set_minus_def filter_id_conv filter_empty_conv)

section \<open>Card: updating the ports\<close>

lemma Port_update_snd: "snd (Port_update env p) = None \<longleftrightarrow> readline env (status_attr p) \<noteq> None"
  by (auto simp: Port_update_def status_attr_def Let_def split: option.splits)

lemma update_ports_Cons_fails:
  "readline env (status_attr p) = None \<Longrightarrow>
   update_ports env ((n, p) # ps) ch =
     (((n, p\<lparr>port_changed := False\<rparr>) # ps, ch), Some (OSError (status_attr p)))"
  by (simp add: Port_update_fails)

lemma update_ports_Cons_ok:
  "readline env (status_attr p) = Some line \<Longrightarrow>
   update_ports env ((n, p) # ps) ch =
     (((n, fst (Port_update env p)) #
         fst (fst (update_ports env ps (ch \<or> port_changed (fst (Port_update env p))))),
       snd (fst (update_ports env ps (ch \<or> port_changed (fst (Port_update env p)))))),
      snd (update_ports env ps (ch \<or> port_changed (fst (Port_update env p)))))"
  by (simp add: Port_update_ok case_prod_unfold)

declare update_ports.simps(2) [simp del]

lemma update_ports_keys: "map fst (fst (fst (update_ports env ps ch))) = map fst ps"
proof (induction ps arbitrary: ch)
  case Nil
  show ?case by simp
next
  case (Cons e ps)
  obtain n p where e: "e = (n, p)" by (cases e)
  show ?case
  proof (cases "readline env (status_attr p)")
    case None
    then show ?thesis by (simp add: e update_ports_Cons_fails)
  next
    case (Some line)
    then show ?thesis by (simp add: e update_ports_Cons_ok Cons.IH)
  qed
qed

lemma update_ports_snd: "snd (update_ports env ps ch) = None \<longleftrightarrow> readable env ps"
proof (induction ps arbitrary: ch)
  case Nil
  show ?case by (simp add: readable_def)
next
  case (Cons e ps)
  obtain n p where e: "e = (n, p)" by (cases e)
  show ?case
  proof (cases "readline env (status_attr p)")
    case None
    then show ?thesis by (simp add: e update_ports_Cons_fails readable_def)
  next
    case (Some line)
    with Cons.IH show ?thesis by (simp add: e update_ports_Cons_ok readable_def)
  qed
qed

lemma update_ports_ok:
  "readable env ps \<Longrightarrow>
   update_ports env ps ch =
     ((map (\<lambda>e. (fst e, fst (Port_update env (snd e)))) ps,
       ch \<or> list_ex (\<lambda>e. port_changed (fst (Port_update env (snd e)))) ps), None)"
proof (induction ps arbitrary: ch)
  case Nil
  show ?case by simp
next
  case (Cons e ps)
  obtain n p where e: "e = (n, p)" by (cases e)
  from Cons.prems obtain line where line: "readline env (status_attr p) = Some line"
    and rest: "readable env ps"
    by (auto simp: e readable_def)
  show ?case
    by (simp add: e update_ports_Cons_ok [OF line] Cons.IH [OF rest])
qed

lemma Port_update_mark: "Port_update env (mark_port b p) = Port_update env p"
  by (simp add: mark_port_def Port_update_flag_reset)

lemma update_ports_mark:
  "snd (update_ports env (mark_ports b ps) ch) = snd (update_ports env ps ch) \<and>
   snd (fst (update_ports env (mark_ports b ps) ch)) = snd (fst (update_ports env ps ch))"
proof (induction ps arbitrary: ch)
  case Nil
  show ?case by (simp add: mark_ports_def)
next
  case (Cons e ps)
  obtain n p where e: "e = (n, p)" by (cases e)
  have unfold: "mark_ports b ((n, p) # ps) = (n, mark_port b p) # mark_ports b ps"
    by (simp add: mark_ports_def)
  have attr: "status_attr (mark_port b p) = status_attr p"
    by (simp add: mark_port_def status_attr_def)
  show ?case
  proof (cases "readline env (status_attr p)")
    case None
    then show ?thesis
      unfolding e unfold by (simp add: update_ports_Cons_fails attr)
  next
    case (Some line)
    then show ?thesis
      unfolding e unfold by (simp add: update_ports_Cons_ok attr Port_update_mark Cons.IH)
  qed
qed

lemma reconciled_ports_mark:
  "reconciled_ports names (mark_card b c) = 
     mark_ports b (filter (\<lambda>e. fst e \<in> set names) (card_ports c)) @
     map (\<lambda>n. (n, Port_init (path_join (card_path c) n)))
       (set_minus (remdups names) (remdups (map fst (card_ports c))))"
  by (simp add: reconciled_ports_def mark_card_def mark_ports_def filter_map o_def)

lemma update_ports_flag:
  "snd (fst (update_ports env ps ch)) \<longleftrightarrow>
     ch \<or> list_ex (\<lambda>e. port_changed (fst (Port_update env (snd e))))
            (takeWhile (\<lambda>e. readline env (status_attr (snd e)) \<noteq> None) ps)"
proof (induction ps arbitrary: ch)
  case Nil
  show ?case by simp
next
  case (Cons e ps)
  obtain n p where e: "e = (n, p)" by (cases e)
  show ?case
  proof (cases "readline env (status_attr p)")
    case None
    then show ?thesis by (simp add: e update_ports_Cons_fails)
  next
    case (Some line)
    then show ?thesis by (simp add: e update_ports_Cons_ok Cons.IH)
  qed
qed

lemma update_ports_stops:
  "readable env before \<Longrightarrow> readline env (status_attr p) = None \<Longrightarrow>
   update_ports env (before @ (n, p) # after) ch =
     ((map (\<lambda>e. (fst e, fst (Port_update env (snd e)))) before @
         (n, p\<lparr>port_changed := False\<rparr>) # after,
       ch \<or> list_ex (\<lambda>e. port_changed (fst (Port_update env (snd e)))) before),
      Some (OSError (status_attr p)))"
proof (induction before arbitrary: ch)
  case Nil
  then show ?case by (simp add: update_ports_Cons_fails)
next
  case (Cons e before)
  obtain m q where e: "e = (m, q)" by (cases e)
  from Cons.prems obtain line where line: "readline env (status_attr q) = Some line"
    and rest: "readable env before"
    by (auto simp: e readable_def)
  show ?case
    by (simp add: e update_ports_Cons_ok [OF line] Cons.IH [OF rest Cons.prems(2)])
qed

section \<open>Card: one update\<close>

lemma Card_update_enum_fails:
  "Card_enum_ports env c = None \<Longrightarrow>
   Card_update env c = (c\<lparr>card_changed := False\<rparr>, Some (OSError (card_path c)))"
  by (simp add: Card_update_def Card_reconcile_fails)

lemma Card_update_unfold:
  "Card_enum_ports env c = Some names \<Longrightarrow>
   Card_update env c =
     (c\<lparr>card_ports :=
          fst (fst (update_ports env (reconciled_ports names c)
                     (set names \<noteq> fst ` set (card_ports c)))),
        card_changed :=
          snd (fst (update_ports env (reconciled_ports names c)
                     (set names \<noteq> fst ` set (card_ports c))))\<rparr>,
      snd (update_ports env (reconciled_ports names c)
             (set names \<noteq> fst ` set (card_ports c))))"
  by (simp add: Card_update_def Card_reconcile_ok case_prod_unfold)

lemma Card_update_path [simp]: "card_path (fst (Card_update env c)) = card_path c"
  by (cases "Card_enum_ports env c") (simp_all add: Card_update_enum_fails Card_update_unfold)

lemma Card_update_snd:
  "snd (Card_update env c) = None \<longleftrightarrow>
   (\<exists>names. Card_enum_ports env c = Some names \<and> readable env (reconciled_ports names c))"
  by (cases "Card_enum_ports env c")
     (simp_all add: Card_update_enum_fails Card_update_unfold update_ports_snd)

lemma Card_update_ok:
  "Card_enum_ports env c = Some names \<Longrightarrow> readable env (reconciled_ports names c) \<Longrightarrow>
   Card_update env c =
     (c\<lparr>card_ports :=
          map (\<lambda>e. (fst e, fst (Port_update env (snd e)))) (reconciled_ports names c),
        card_changed :=
          (set names \<noteq> fst ` set (card_ports c) \<or>
           list_ex (\<lambda>e. port_changed (fst (Port_update env (snd e))))
             (reconciled_ports names c))\<rparr>, None)"
  by (simp add: Card_update_unfold update_ports_ok)

lemma Card_update_flag_reset: "Card_update env (c\<lparr>card_changed := b\<rparr>) = Card_update env c"
  by (simp add: Card_update_def Card_reconcile_def Let_def)

text \<open>
  C4. After a card's update that raised nothing, the card's \<open>changed\<close> flag is set exactly
  when the names it knew and the names its directory now lists differ (their symmetric
  difference is not empty), or a port that was kept (known before and still listed) has
  its own \<open>changed\<close> flag set.
\<close>

theorem card_changed_iff:
  assumes names: "Card_enum_ports env c = Some names"
    and ok: "snd (Card_update env c) = None"
  shows "card_changed (fst (Card_update env c)) \<longleftrightarrow>
     (fst ` set (card_ports c) - set names) \<union> (set names - fst ` set (card_ports c)) \<noteq> {} \<or>
     (\<exists>e \<in> set (card_ports (fst (Card_update env c))).
        fst e \<in> fst ` set (card_ports c) \<inter> set names \<and> port_changed (snd e))"
proof -
  from ok names have rd: "readable env (reconciled_ports names c)"
    by (simp add: Card_update_snd)
  note upd = Card_update_ok [OF names rd]
  show ?thesis
  proof (cases "set names = fst ` set (card_ports c)")
    case True
    then have "reconciled_ports names c = card_ports c"
      by (rule reconciled_ports_stable)
    with True show ?thesis
      by (auto simp: upd list_ex_iff)
  next
    case False
    then show ?thesis by (auto simp: upd)
  qed
qed

text \<open>
  A card whose only connector is still listed and went from disconnected to connected:
  the membership is the same, the port changed, and so did the card.
\<close>

theorem card_changed_iff_witness:
  "Card_enum_ports (hdmi_reads line_connected) one_port = Some [hdmi] \<and>
   snd (Card_update (hdmi_reads line_connected) one_port) = None \<and>
   (fst ` set (card_ports one_port) - set [hdmi]) \<union>
     (set [hdmi] - fst ` set (card_ports one_port)) = {} \<and>
   card_changed (fst (Card_update (hdmi_reads line_connected) one_port)) \<and>
   (\<exists>e \<in> set (card_ports (fst (Card_update (hdmi_reads line_connected) one_port))).
      fst e \<in> fst ` set (card_ports one_port) \<inter> set [hdmi] \<and> port_changed (snd e))"
proof -
  have names: "Card_enum_ports (hdmi_reads line_connected) one_port = Some [hdmi]"
    by code_simp
  have ok: "snd (Card_update (hdmi_reads line_connected) one_port) = None"
    by code_simp
  have same: "(fst ` set (card_ports one_port) - set [hdmi]) \<union>
      (set [hdmi] - fst ` set (card_ports one_port)) = {}"
    by (simp add: one_port_def)
  have changed: "card_changed (fst (Card_update (hdmi_reads line_connected) one_port))"
    by code_simp
  from card_changed_iff [OF names ok] same changed
  have port: "\<exists>e \<in> set (card_ports (fst (Card_update (hdmi_reads line_connected) one_port))).
      fst e \<in> fst ` set (card_ports one_port) \<inter> set [hdmi] \<and> port_changed (snd e)"
    by blast
  show ?thesis
    by (intro conjI names ok same changed port)
qed

section \<open>Flags are reset, not inherited\<close>

lemma same_entry_Port_update:
  assumes "same_entry (n, p) (n', p')"
  shows "Port_update env p = Port_update env p'" and "status_attr p = status_attr p'"
proof -
  from assms have eq: "p\<lparr>port_changed := False\<rparr> = p'\<lparr>port_changed := False\<rparr>"
    by (simp add: same_entry_def)
  have "Port_update env p = Port_update env (p\<lparr>port_changed := False\<rparr>)"
    by (simp add: Port_update_flag_reset)
  also have "\<dots> = Port_update env p'"
    unfolding eq by (simp add: Port_update_flag_reset)
  finally show "Port_update env p = Port_update env p'" .
  have "status_attr p = status_attr (p\<lparr>port_changed := False\<rparr>)"
    by (simp add: status_attr_def)
  also have "\<dots> = status_attr p'"
    unfolding eq by (simp add: status_attr_def)
  finally show "status_attr p = status_attr p'" .
qed

text \<open>
  The outcome of the loop over the ports and the flag it accumulates do not depend on
  the flags the ports had before.
\<close>

lemma update_ports_same_entries:
  "list_all2 same_entry ps ps' \<Longrightarrow>
   snd (update_ports env ps ch) = snd (update_ports env ps' ch) \<and>
   snd (fst (update_ports env ps ch)) = snd (fst (update_ports env ps' ch))"
proof (induction ps ps' arbitrary: ch rule: list_all2_induct)
  case Nil
  show ?case by simp
next
  case (Cons e ps e' ps')
  obtain n p where e: "e = (n, p)" by (cases e)
  obtain n' p' where e': "e' = (n', p')" by (cases e')
  from Cons.hyps(1) have same: "same_entry (n, p) (n', p')" by (simp add: e e')
  note eqs = same_entry_Port_update [OF same]
  show ?case
  proof (cases "readline env (status_attr p)")
    case None
    then show ?thesis
      unfolding e e' using eqs(2) by (simp add: update_ports_Cons_fails)
  next
    case (Some line)
    then have "readline env (status_attr p') = Some line" using eqs(2) by simp
    with Some show ?thesis
      unfolding e e' by (simp add: update_ports_Cons_ok eqs(1) Cons.IH)
  qed
qed

lemma same_entry_mark: "list_all2 same_entry (mark_ports b ps) ps"
  by (induction ps) (simp_all add: mark_ports_def mark_port_def same_entry_def)

lemma same_entry_refl: "list_all2 same_entry ps ps"
  by (induction ps) (simp_all add: same_entry_def)

lemma Card_update_mark:
  "snd (Card_update env (mark_card b c)) = snd (Card_update env c) \<and>
   card_changed (fst (Card_update env (mark_card b c))) = card_changed (fst (Card_update env c))"
proof (cases "Card_enum_ports env c")
  case None
  then have "Card_enum_ports env (mark_card b c) = None"
    by (simp add: Card_enum_ports_def mark_card_def)
  with None show ?thesis
    by (simp add: Card_update_enum_fails mark_card_def)
next
  case (Some names)
  then have names': "Card_enum_ports env (mark_card b c) = Some names"
    by (simp add: Card_enum_ports_def mark_card_def)
  have keys: "fst ` set (card_ports (mark_card b c)) = fst ` set (card_ports c)"
    by (force simp: mark_card_def mark_ports_def)
  have "list_all2 same_entry (reconciled_ports names (mark_card b c)) (reconciled_ports names c)"
    unfolding reconciled_ports_mark
    unfolding reconciled_ports_def
    by (intro list_all2_appendI same_entry_mark same_entry_refl)
  from update_ports_same_entries [OF this]
  show ?thesis
    by (simp add: Card_update_unfold [OF Some] Card_update_unfold [OF names'] keys)
qed

lemma update_cards_Cons_fails:
  "snd (Card_update env c) = Some e \<Longrightarrow>
   update_cards env (c # cs) ch = ((fst (Card_update env c) # cs, ch), Some e)"
  by (simp add: case_prod_unfold)

lemma update_cards_Cons_ok:
  "snd (Card_update env c) = None \<Longrightarrow>
   update_cards env (c # cs) ch =
     ((fst (Card_update env c) #
         fst (fst (update_cards env cs (ch \<or> card_changed (fst (Card_update env c))))),
       snd (fst (update_cards env cs (ch \<or> card_changed (fst (Card_update env c)))))),
      snd (update_cards env cs (ch \<or> card_changed (fst (Card_update env c)))))"
  by (simp add: case_prod_unfold)

declare update_cards.simps(2) [simp del]

lemma update_cards_snd:
  "snd (update_cards env cs ch) = None \<longleftrightarrow> list_all (\<lambda>c. snd (Card_update env c) = None) cs"
proof (induction cs arbitrary: ch)
  case Nil
  show ?case by simp
next
  case (Cons c cs)
  show ?case
  proof (cases "snd (Card_update env c)")
    case None
    with Cons.IH show ?thesis by (simp add: update_cards_Cons_ok)
  next
    case (Some e)
    then show ?thesis by (simp add: update_cards_Cons_fails)
  qed
qed

lemma update_cards_ok:
  "list_all (\<lambda>c. snd (Card_update env c) = None) cs \<Longrightarrow>
   update_cards env cs ch =
     ((map (\<lambda>c. fst (Card_update env c)) cs,
       ch \<or> list_ex (\<lambda>c. card_changed (fst (Card_update env c))) cs), None)"
proof (induction cs arbitrary: ch)
  case Nil
  show ?case by simp
next
  case (Cons c cs)
  then have c: "snd (Card_update env c) = None"
    and rest: "list_all (\<lambda>c. snd (Card_update env c) = None) cs"
    by simp_all
  show ?case
    by (simp add: update_cards_Cons_ok [OF c] Cons.IH [OF rest])
qed

lemma update_cards_mark:
  "snd (update_cards env (map (mark_card b) cs) ch) = snd (update_cards env cs ch) \<and>
   snd (fst (update_cards env (map (mark_card b) cs) ch)) = snd (fst (update_cards env cs ch))"
proof (induction cs arbitrary: ch)
  case Nil
  show ?case by simp
next
  case (Cons c cs)
  note m = Card_update_mark [of env b c]
  show ?case
  proof (cases "snd (Card_update env c)")
    case None
    with m have "snd (Card_update env (mark_card b c)) = None" by simp
    with None m show ?thesis
      by (simp add: update_cards_Cons_ok Cons.IH)
  next
    case (Some e)
    with m have "snd (Card_update env (mark_card b c)) = Some e" by simp
    with Some show ?thesis
      by (simp add: update_cards_Cons_fails)
  qed
qed

lemma Watcher_poll_unfold:
  "Watcher_poll env w =
     (w\<lparr>watcher_cards := fst (fst (update_cards env (watcher_cards w) False)),
        watcher_changed := snd (fst (update_cards env (watcher_cards w) False))\<rparr>,
      snd (update_cards env (watcher_cards w) False))"
  by (simp add: Watcher_poll_def Let_def case_prod_unfold)

lemma Watcher_poll_flag_reset:
  "Watcher_poll env (w\<lparr>watcher_changed := b\<rparr>) = Watcher_poll env w"
  by (simp add: Watcher_poll_unfold)

lemma Watcher_poll_mark:
  "snd (Watcher_poll env (mark_watcher b w)) = snd (Watcher_poll env w) \<and>
   watcher_changed (fst (Watcher_poll env (mark_watcher b w))) =
     watcher_changed (fst (Watcher_poll env w))"
  by (simp add: Watcher_poll_unfold mark_watcher_def update_cards_mark)

lemma update_cards_flag:
  "snd (fst (update_cards env cs ch)) \<longleftrightarrow>
     ch \<or> list_ex (\<lambda>c. card_changed (fst (Card_update env c)))
            (takeWhile (\<lambda>c. snd (Card_update env c) = None) cs)"
proof (induction cs arbitrary: ch)
  case Nil
  show ?case by simp
next
  case (Cons c cs)
  show ?case
  proof (cases "snd (Card_update env c)")
    case None
    then show ?thesis by (simp add: update_cards_Cons_ok Cons.IH)
  next
    case (Some e)
    then show ?thesis by (simp add: update_cards_Cons_fails)
  qed
qed

lemma update_cards_stops:
  "list_all (\<lambda>c. snd (Card_update env c) = None) before \<Longrightarrow>
   snd (Card_update env c) = Some e \<Longrightarrow>
   update_cards env (before @ c # after) ch =
     ((map (\<lambda>c. fst (Card_update env c)) before @ fst (Card_update env c) # after,
       ch \<or> list_ex (\<lambda>c. card_changed (fst (Card_update env c))) before),
      Some e)"
proof (induction before arbitrary: ch)
  case Nil
  then show ?case by (simp add: update_cards_Cons_fails)
next
  case (Cons d before)
  then have d: "snd (Card_update env d) = None"
    and rest: "list_all (\<lambda>c. snd (Card_update env c) = None) before"
    by simp_all
  show ?case
    by (simp add: update_cards_Cons_ok [OF d] Cons.IH [OF rest Cons.prems(2)])
qed

lemma Port_update_flag:
  "port_changed (fst (Port_update env p)) \<longleftrightarrow>
     (case readline env (status_attr p) of
        None \<Rightarrow> False
      | Some line \<Rightarrow> Some (strip line) \<noteq> port_status p)"
  by (simp add: Port_update_ok Port_update_fails split: option.split)

lemma Card_update_flag:
  "card_changed (fst (Card_update env c)) \<longleftrightarrow>
     (case Card_enum_ports env c of
        None \<Rightarrow> False
      | Some names \<Rightarrow>
          set names \<noteq> fst ` set (card_ports c) \<or>
          list_ex (\<lambda>e. port_changed (fst (Port_update env (snd e))))
            (takeWhile (\<lambda>e. readline env (status_attr (snd e)) \<noteq> None)
              (card_ports (fst (Card_reconcile env c)))))"
  by (simp add: Card_update_enum_fails Card_update_unfold Card_reconcile_ok update_ports_flag
      split: option.split)

lemma Watcher_poll_flag:
  "watcher_changed (fst (Watcher_poll env w)) \<longleftrightarrow>
     list_ex (\<lambda>c. card_changed (fst (Card_update env c)))
       (takeWhile (\<lambda>c. snd (Card_update env c) = None) (watcher_cards w))"
  by (simp add: Watcher_poll_unfold update_cards_flag)

text \<open>
  C6. At each of the three levels the update starts by clearing the object's own
  \<open>changed\<close> flag, so the call does the same whatever that flag was (first three
  equations). Nor does a flag further down survive: the flag an update leaves, and whether
  it raises, are the same when every flag of the state it starts from, at every level,
  has been overwritten with an arbitrary \<open>b\<close>. And the flag an update leaves is set by
  what this update finds, and by nothing else. A port's flag is set exactly when the read
  succeeds and the text differs from the stored status; it is false when the read fails.
  A card's flag is false when its directory cannot be listed, and otherwise set exactly
  when the names differ from the keys or one of the ports updated by this call (those
  before the first unreadable one) reports a change. The watcher's flag is set exactly
  when one of the cards updated by this poll (those before the first that raises)
  reports a change.
\<close>

theorem changed_not_sticky:
  "Port_update env (p\<lparr>port_changed := b\<rparr>) = Port_update env p \<and>
   Card_update env (c\<lparr>card_changed := b\<rparr>) = Card_update env c \<and>
   Watcher_poll env (w\<lparr>watcher_changed := b\<rparr>) = Watcher_poll env w \<and>
   card_changed (fst (Card_update env (mark_card b c))) = card_changed (fst (Card_update env c)) \<and>
   snd (Card_update env (mark_card b c)) = snd (Card_update env c) \<and>
   watcher_changed (fst (Watcher_poll env (mark_watcher b w))) =
     watcher_changed (fst (Watcher_poll env w)) \<and>
   snd (Watcher_poll env (mark_watcher b w)) = snd (Watcher_poll env w) \<and>
   (port_changed (fst (Port_update env p)) \<longleftrightarrow>
      (case readline env (status_attr p) of
         None \<Rightarrow> False
       | Some line \<Rightarrow> Some (strip line) \<noteq> port_status p)) \<and>
   (card_changed (fst (Card_update env c)) \<longleftrightarrow>
      (case Card_enum_ports env c of
         None \<Rightarrow> False
       | Some names \<Rightarrow>
           set names \<noteq> fst ` set (card_ports c) \<or>
           list_ex (\<lambda>e. port_changed (fst (Port_update env (snd e))))
             (takeWhile (\<lambda>e. readline env (status_attr (snd e)) \<noteq> None)
               (card_ports (fst (Card_reconcile env c)))))) \<and>
   (watcher_changed (fst (Watcher_poll env w)) \<longleftrightarrow>
      list_ex (\<lambda>c. card_changed (fst (Card_update env c)))
        (takeWhile (\<lambda>c. snd (Card_update env c) = None) (watcher_cards w)))"
  using Card_update_mark [of env b c] Watcher_poll_mark [of env b w]
    Port_update_flag [of env p] Card_update_flag [of env c] Watcher_poll_flag [of env w]
  by (simp only: Port_update_flag_reset Card_update_flag_reset Watcher_poll_flag_reset)

text \<open>
  A fresh port reports a change on its first read and none on the next read of the same
  text, although its flag was set; a port whose read fails is left with its flag cleared.
  The same for the card and the watcher of the example: a change on discovery, none on
  the next update of the same file system.
\<close>

theorem changed_not_sticky_witness:
  "port_changed (fst (Port_update (hdmi_reads line_connected) (Port_init hdmi_path))) \<and>
   \<not> port_changed (fst (Port_update (hdmi_reads line_connected)
        (hdmi_seen ''connected'' None True))) \<and>
   \<not> port_changed (fst (Port_update dp1_unreadable (dp1_seen ''disconnected'' None True))) \<and>
   card_changed (fst (Card_update (hdmi_reads line_connected) demo_card)) \<and>
   \<not> card_changed (fst (Card_update (hdmi_reads line_connected)
        (fst (Card_update (hdmi_reads line_connected) demo_card)))) \<and>
   watcher_changed (fst (Watcher_poll (hdmi_reads line_connected) demo_watcher)) \<and>
   \<not> watcher_changed (fst (Watcher_poll (hdmi_reads line_connected) demo_synced))"
proof -
  let ?env = "hdmi_reads line_connected"
  let ?c1 = "fst (Card_update ?env demo_card)"
  have p1: "case readline ?env (status_attr (Port_init hdmi_path)) of
      None \<Rightarrow> False
    | Some line \<Rightarrow> Some (strip line) \<noteq> port_status (Port_init hdmi_path)"
    by code_simp
  have p2: "\<not> (case readline ?env (status_attr (hdmi_seen ''connected'' None True)) of
      None \<Rightarrow> False
    | Some line \<Rightarrow> Some (strip line) \<noteq> port_status (hdmi_seen ''connected'' None True))"
    by code_simp
  have p3: "\<not> (case readline dp1_unreadable (status_attr (dp1_seen ''disconnected'' None True)) of
      None \<Rightarrow> False
    | Some line \<Rightarrow> Some (strip line) \<noteq> port_status (dp1_seen ''disconnected'' None True))"
    by code_simp
  have c1: "case Card_enum_ports ?env demo_card of
      None \<Rightarrow> False
    | Some names \<Rightarrow>
        set names \<noteq> fst ` set (card_ports demo_card) \<or>
        list_ex (\<lambda>e. port_changed (fst (Port_update ?env (snd e))))
          (takeWhile (\<lambda>e. readline ?env (status_attr (snd e)) \<noteq> None)
            (card_ports (fst (Card_reconcile ?env demo_card))))"
    by code_simp
  have c2: "\<not> (case Card_enum_ports ?env ?c1 of
      None \<Rightarrow> False
    | Some names \<Rightarrow>
        set names \<noteq> fst ` set (card_ports ?c1) \<or>
        list_ex (\<lambda>e. port_changed (fst (Port_update ?env (snd e))))
          (takeWhile (\<lambda>e. readline ?env (status_attr (snd e)) \<noteq> None)
            (card_ports (fst (Card_reconcile ?env ?c1)))))"
    by code_simp
  have w1: "list_ex (\<lambda>c. card_changed (fst (Card_update ?env c)))
      (takeWhile (\<lambda>c. snd (Card_update ?env c) = None) (watcher_cards demo_watcher))"
    by code_simp
  have w2: "\<not> list_ex (\<lambda>c. card_changed (fst (Card_update ?env c)))
      (takeWhile (\<lambda>c. snd (Card_update ?env c) = None) (watcher_cards demo_synced))"
    by code_simp
  have "port_changed (fst (Port_update ?env (Port_init hdmi_path)))"
    using changed_not_sticky [where env="?env" and p="Port_init hdmi_path" and b=True
        and c="demo_card" and w="demo_watcher"] p1
    by blast
  moreover have "\<not> port_changed (fst (Port_update ?env (hdmi_seen ''connected'' None True)))"
    using changed_not_sticky [where env="?env" and p="hdmi_seen ''connected'' None True" and b=True
        and c="demo_card" and w="demo_watcher"]
      p2 by blast
  moreover have "\<not> port_changed (fst (Port_update dp1_unreadable
      (dp1_seen ''disconnected'' None True)))"
    using changed_not_sticky [where env="dp1_unreadable" and p="dp1_seen ''disconnected'' None True" and b=True
        and c="demo_card" and w="demo_watcher"] p3 by blast
  moreover have "card_changed (fst (Card_update ?env demo_card))"
    using changed_not_sticky [where env="?env" and p="Port_init hdmi_path" and b=True
        and c="demo_card" and w="demo_watcher"] c1
    by blast
  moreover have "\<not> card_changed (fst (Card_update ?env ?c1))"
    using changed_not_sticky [where env="?env" and p="Port_init hdmi_path" and b=True
        and c="?c1" and w="demo_watcher"] c2
    by blast
  moreover have "watcher_changed (fst (Watcher_poll ?env demo_watcher))"
    using changed_not_sticky [where env="?env" and p="Port_init hdmi_path" and b=True
        and c="demo_card" and w="demo_watcher"] w1
    by blast
  moreover have "\<not> watcher_changed (fst (Watcher_poll ?env demo_synced))"
    using changed_not_sticky [where env="?env" and p="Port_init hdmi_path" and b=True
        and c="demo_card" and w="demo_synced"] w2
    by blast
  ultimately show ?thesis by blast
qed

section \<open>Polling an unchanged file system\<close>

lemma Port_update_in_sync:
  "readline env (status_attr p) \<noteq> None \<Longrightarrow> in_sync env (fst (Port_update env p))"
  by (auto simp: in_sync_def Port_update_ok)

lemma in_sync_Port_update:
  "in_sync env p \<Longrightarrow>
   snd (Port_update env p) = None \<and> \<not> port_changed (fst (Port_update env p)) \<and>
   in_sync env (fst (Port_update env p))"
  by (auto simp: in_sync_def Port_update_ok)

lemma in_sync_readable: "list_all (\<lambda>e. in_sync env (snd e)) ps \<Longrightarrow> readable env ps"
  by (auto simp: readable_def list_all_iff in_sync_def)

lemma Card_update_in_sync:
  assumes "snd (Card_update env c) = None"
  shows "card_in_sync env (fst (Card_update env c))"
proof -
  from assms obtain names where names: "Card_enum_ports env c = Some names"
    and rd: "readable env (reconciled_ports names c)"
    by (auto simp: Card_update_snd)
  note upd = Card_update_ok [OF names rd]
  have "Card_enum_ports env (fst (Card_update env c)) = Some names"
    using names by (simp add: Card_enum_ports_def)
  moreover have "fst ` set (card_ports (fst (Card_update env c))) = set names"
    using reconciled_ports_keys [of names c] by (simp add: upd image_image)
  moreover have "list_all (\<lambda>e. in_sync env (snd e)) (card_ports (fst (Card_update env c)))"
    using rd by (simp add: upd list_all_iff readable_def Port_update_in_sync)
  ultimately show ?thesis by (simp add: card_in_sync_def)
qed

lemma card_in_sync_update:
  assumes "card_in_sync env c"
  shows "snd (Card_update env c) = None \<and> \<not> card_changed (fst (Card_update env c)) \<and>
     card_in_sync env (fst (Card_update env c))"
proof -
  from assms obtain names where names: "Card_enum_ports env c = Some names"
    and keys: "set names = fst ` set (card_ports c)"
    and sync: "list_all (\<lambda>e. in_sync env (snd e)) (card_ports c)"
    by (auto simp: card_in_sync_def split: option.splits)
  have same: "reconciled_ports names c = card_ports c"
    using keys by (rule reconciled_ports_stable)
  have rd: "readable env (reconciled_ports names c)"
    unfolding same using sync by (rule in_sync_readable)
  note upd = Card_update_ok [OF names rd]
  have ok: "snd (Card_update env c) = None" by (simp add: upd)
  have "\<not> card_changed (fst (Card_update env c))"
    using sync by (simp add: upd keys same list_ex_iff list_all_iff in_sync_Port_update)
  with ok Card_update_in_sync [OF ok] show ?thesis by simp
qed

lemma update_cards_in_sync:
  "snd (update_cards env cs ch) = None \<Longrightarrow>
   list_all (card_in_sync env) (fst (fst (update_cards env cs ch)))"
  by (simp add: update_cards_snd update_cards_ok list_all_iff Card_update_in_sync)

lemma in_sync_update_cards:
  assumes "list_all (card_in_sync env) cs"
  shows "snd (update_cards env cs ch) = None \<and> snd (fst (update_cards env cs ch)) = ch \<and>
     list_all (card_in_sync env) (fst (fst (update_cards env cs ch)))"
proof -
  from assms have ok: "list_all (\<lambda>c. snd (Card_update env c) = None) cs"
    by (simp add: list_all_iff card_in_sync_update)
  from assms show ?thesis
    by (simp add: update_cards_ok [OF ok] list_all_iff list_ex_iff card_in_sync_update)
qed

lemma Watcher_poll_in_sync:
  "snd (Watcher_poll env w) = None \<Longrightarrow> watcher_in_sync env (fst (Watcher_poll env w))"
  by (simp add: Watcher_poll_unfold watcher_in_sync_def update_cards_in_sync)

lemma in_sync_Watcher_poll:
  "watcher_in_sync env w \<Longrightarrow>
   snd (Watcher_poll env w) = None \<and> \<not> watcher_changed (fst (Watcher_poll env w)) \<and>
   watcher_in_sync env (fst (Watcher_poll env w))"
  by (simp add: Watcher_poll_unfold watcher_in_sync_def in_sync_update_cards)

lemma polls_in_sync:
  "snd (Watcher_poll env w) = None \<Longrightarrow> 0 < k \<Longrightarrow> watcher_in_sync env (polls env k w)"
proof (induction k)
  case 0
  then show ?case by simp
next
  case (Suc k)
  show ?case
  proof (cases k)
    case 0
    with Suc.prems show ?thesis by (simp add: polls_def Watcher_poll_in_sync)
  next
    case (Suc j)
    with Suc.IH Suc.prems have "watcher_in_sync env (polls env k w)" by simp
    then show ?thesis by (simp add: polls_def in_sync_Watcher_poll)
  qed
qed

text \<open>
  C7. Let a poll of the file system \<open>env\<close> succeed. Then every later poll of the same
  \<open>env\<close> (same directory listings, same status attributes) succeeds too and leaves the
  watcher's \<open>changed\<close> flag false: \<open>polls env k w\<close> is the watcher after \<open>k\<close> polls,
  and the claim is about poll number \<open>k + 1\<close> for every \<open>k \<ge> 1\<close>.
\<close>

theorem poll_idempotent:
  assumes "snd (Watcher_poll env w) = None" and "0 < k"
  shows "snd (Watcher_poll env (polls env k w)) = None \<and>
     \<not> watcher_changed (fst (Watcher_poll env (polls env k w)))"
  using polls_in_sync [OF assms] by (simp add: in_sync_Watcher_poll)

text \<open>
  The first poll of the example discovers the connector and reports a change; the third
  poll of the same file system reports none.
\<close>

theorem poll_idempotent_witness:
  "snd (Watcher_poll (hdmi_reads line_connected) demo_watcher) = None \<and> (0::nat) < 2 \<and>
   watcher_changed (fst (Watcher_poll (hdmi_reads line_connected) demo_watcher)) \<and>
   snd (Watcher_poll (hdmi_reads line_connected)
         (polls (hdmi_reads line_connected) 2 demo_watcher)) = None \<and>
   \<not> watcher_changed (fst (Watcher_poll (hdmi_reads line_connected)
         (polls (hdmi_reads line_connected) 2 demo_watcher)))"
proof -
  have first: "snd (Watcher_poll (hdmi_reads line_connected) demo_watcher) = None"
    by code_simp
  have discovered: "watcher_changed (fst (Watcher_poll (hdmi_reads line_connected) demo_watcher))"
    by code_simp
  have "(0::nat) < 2" by simp
  from poll_idempotent [OF first this] first discovered show ?thesis by simp
qed

section \<open>The polling loop: deadline and effects\<close>

lemma run_tick_idle:
  "\<not> now_check t \<ge> deadline s \<Longrightarrow>
   run_tick a t s = (s\<lparr>effects := effects s @ [Slept (max 0 (deadline s - now_sleep t))]\<rparr>, None)"
  by (simp add: run_tick_def sleep_until_deadline_def)

lemma run_tick_poll_fails:
  "now_check t \<ge> deadline s \<Longrightarrow> snd (Watcher_poll (tick_fs t) (run_watcher s)) = Some e \<Longrightarrow>
   run_tick a t s = (s\<lparr>run_watcher := fst (Watcher_poll (tick_fs t) (run_watcher s))\<rparr>, Some e)"
  by (simp add: run_tick_def case_prod_unfold)

lemma run_tick_spawn_fails:
  "now_check t \<ge> deadline s \<Longrightarrow> snd (Watcher_poll (tick_fs t) (run_watcher s)) = None \<Longrightarrow>
   watcher_changed (fst (Watcher_poll (tick_fs t) (run_watcher s))) \<Longrightarrow>
   spawn_error t = Some e \<Longrightarrow>
   run_tick a t s =
     (s\<lparr>run_watcher := fst (Watcher_poll (tick_fs t) (run_watcher s)),
        effects := effects s @ [Ran (cmd a)]\<rparr>, Some e)"
  by (simp add: run_tick_def case_prod_unfold)

lemma run_tick_fired:
  "now_check t \<ge> deadline s \<Longrightarrow> snd (Watcher_poll (tick_fs t) (run_watcher s)) = None \<Longrightarrow>
   watcher_changed (fst (Watcher_poll (tick_fs t) (run_watcher s))) \<longrightarrow> spawn_error t = None \<Longrightarrow>
   run_tick a t s =
     (\<lparr>run_watcher = fst (Watcher_poll (tick_fs t) (run_watcher s)),
       deadline = deadline s + polling_rate a,
       effects = effects s @
         (if watcher_changed (fst (Watcher_poll (tick_fs t) (run_watcher s)))
          then [Ran (cmd a)] else []) @
         [Slept (max 0 (deadline s + polling_rate a - now_sleep t))]\<rparr>, None)"
  by (simp add: run_tick_def case_prod_unfold sleep_until_deadline_def)

lemma run_tick_deadline:
  "snd (run_tick a t s) = None \<Longrightarrow>
   deadline (fst (run_tick a t s)) =
     deadline s + (if now_check t \<ge> deadline s then polling_rate a else 0)"
  by (auto simp: run_tick_def sleep_until_deadline_def case_prod_unfold Let_def
      split: option.splits if_splits)

lemma run_loop_Cons_ok:
  "snd (run_tick a t s) = None \<Longrightarrow> run_loop a (t # ts) s = run_loop a ts (fst (run_tick a t s))"
  by (simp add: case_prod_unfold)

lemma run_loop_Cons_fails:
  "snd (run_tick a t s) = Some e \<Longrightarrow> run_loop a (t # ts) s = (fst (run_tick a t s), Some e)"
  by (simp add: case_prod_unfold)

lemma fired_Cons_ok:
  "snd (run_tick a t s) = None \<Longrightarrow>
   fired a (t # ts) s = (if now_check t \<ge> deadline s then 1 else 0) + fired a ts (fst (run_tick a t s))"
  by (simp add: case_prod_unfold)

lemma loop_polls_Cons:
  "loop_polls a (t # ts) s =
     (if now_check t \<ge> deadline s then
        (if snd (Watcher_poll (tick_fs t) (run_watcher s)) = None
         then [watcher_changed (fst (Watcher_poll (tick_fs t) (run_watcher s)))] else [])
      else []) @
     (if snd (run_tick a t s) = None then loop_polls a ts (fst (run_tick a t s)) else [])"
  by (simp add: case_prod_unfold Let_def split: option.splits)

declare run_loop.simps(2) [simp del] fired.simps(2) [simp del] loop_polls.simps(2) [simp del]

text \<open>
  The deadline of a run that is still going: one polling rate for every fired tick.
\<close>

lemma run_loop_deadline:
  "snd (run_loop a ts s) = None \<Longrightarrow>
   deadline (fst (run_loop a ts s)) = deadline s + real (fired a ts s) * polling_rate a"
proof (induction ts arbitrary: s)
  case Nil
  show ?case by simp
next
  case (Cons t ts)
  show ?case
  proof (cases "snd (run_tick a t s)")
    case None
    from Cons.prems have "snd (run_loop a ts (fst (run_tick a t s))) = None"
      by (simp add: run_loop_Cons_ok [OF None])
    from Cons.IH [OF this] show ?thesis
      by (simp add: run_loop_Cons_ok [OF None] fired_Cons_ok [OF None]
          run_tick_deadline [OF None] algebra_simps)
  next
    case (Some e)
    with Cons.prems show ?thesis by (simp add: run_loop_Cons_fails)
  qed
qed

text \<open>
  C1. Every fired tick adds to the previous deadline (lemma \<open>run_loop_deadline\<close>), but
  what it adds is \<open>args.polling_rate\<close> itself, the number the command line documents as
  a rate in Hz, and not its reciprocal. Clock readings are taken as the real numbers they
  denote. With the default rate 0.2 and the deadline first set at 100, two fired ticks
  (the clock reading 100, then 101) leave the deadline at 100.4; two periods of
  1 / 0.2 = 5 seconds would give 110.
\<close>

theorem deadline_advances_by_rate:
  "deadline (fst (run_loop demo_args
      [demo_tick 100 line_connected, demo_tick 101 line_connected]
      (start_state demo_watcher))) = 100 + 2 * (2 / 10) \<and>
   fired demo_args
      [demo_tick 100 line_connected, demo_tick 101 line_connected]
      (start_state demo_watcher) = 2 \<and>
   polling_rate demo_args = 2 / 10 \<and>
   100 + 2 * (2 / 10) \<noteq> (100 + 2 * (1 / polling_rate demo_args) :: real)"
  by code_simp

lemma run_tick_Ran:
  "filter is_Ran (effects (fst (run_tick a t s))) =
   filter is_Ran (effects s) @
     map (\<lambda>_. Ran (cmd a))
       (filter id
         (if now_check t \<ge> deadline s then
            (if snd (Watcher_poll (tick_fs t) (run_watcher s)) = None
             then [watcher_changed (fst (Watcher_poll (tick_fs t) (run_watcher s)))] else [])
          else []))"
proof (cases "now_check t \<ge> deadline s")
  case False
  then show ?thesis by (simp add: run_tick_idle is_Ran_def)
next
  case fires: True
  show ?thesis
  proof (cases "snd (Watcher_poll (tick_fs t) (run_watcher s))")
    case (Some e)
    with fires show ?thesis by (simp add: run_tick_poll_fails)
  next
    case None
    show ?thesis
    proof (cases "watcher_changed (fst (Watcher_poll (tick_fs t) (run_watcher s)))")
      case False
      with fires None show ?thesis by (simp add: run_tick_fired is_Ran_def)
    next
      case True
      show ?thesis
      proof (cases "spawn_error t")
        case None': None
        with fires None True show ?thesis by (simp add: run_tick_fired is_Ran_def)
      next
        case (Some e)
        with fires None True show ?thesis by (simp add: run_tick_spawn_fails is_Ran_def)
      qed
    qed
  qed
qed

lemma run_loop_Ran:
  "filter is_Ran (effects (fst (run_loop a ts s))) =
   filter is_Ran (effects s) @ map (\<lambda>_. Ran (cmd a)) (filter id (loop_polls a ts s))"
proof (induction ts arbitrary: s)
  case Nil
  show ?case by simp
next
  case (Cons t ts)
  show ?case
  proof (cases "snd (run_tick a t s)")
    case None
    show ?thesis
      by (simp add: run_loop_Cons_ok [OF None] Cons.IH run_tick_Ran loop_polls_Cons None)
  next
    case (Some e)
    show ?thesis
      by (simp add: run_loop_Cons_fails [OF Some] run_tick_Ran loop_polls_Cons Some)
  qed
qed

lemma Watcher_run_unfold:
  "Watcher_poll env0 w = (w0, None) \<Longrightarrow>
   Watcher_run a env0 now0 ts w =
     Looping (fst (run_loop a ts \<lparr>run_watcher = w0, deadline = now0, effects = []\<rparr>))
             (snd (run_loop a ts \<lparr>run_watcher = w0, deadline = now0, effects = []\<rparr>))"
  by (simp add: Watcher_run_def case_prod_unfold)

lemma poll_twice_unchanged:
  assumes "Watcher_poll env w = (w0, None)"
  shows "snd (Watcher_poll env w0) = None \<and> \<not> watcher_changed (fst (Watcher_poll env w0))"
proof -
  from assms have "snd (Watcher_poll env w) = None" and w0: "w0 = fst (Watcher_poll env w)"
    by simp_all
  from Watcher_poll_in_sync [OF this(1)] show ?thesis
    unfolding w0 by (simp add: in_sync_Watcher_poll)
qed

text \<open>
  C8. \<open>Watcher.run\<close> polls once before the loop (the first poll is assumed not to raise),
  and with no iteration run yet nothing has been executed, whatever the flag of \<open>w0\<close>
  says. The run is that poll followed by the loop started from its result \<open>w0\<close>, so the
  first tick compares with \<open>w0\<close>. The commands executed by the loop correspond one to one
  to the polls inside the loop that reported a change. And when the first tick finds the
  file system as the first poll did, it sleeps without executing the command.
\<close>

theorem baseline_never_triggers:
  assumes base: "Watcher_poll env0 w = (w0, None)"
    and s0: "s0 = \<lparr>run_watcher = w0, deadline = now0, effects = []\<rparr>"
  shows "Watcher_run a env0 now0 [] w = Looping s0 None \<and>
     Watcher_run a env0 now0 ts w = Looping (fst (run_loop a ts s0)) (snd (run_loop a ts s0)) \<and>
     filter is_Ran (effects (fst (run_loop a ts s0))) =
       map (\<lambda>_. Ran (cmd a)) (filter id (loop_polls a ts s0)) \<and>
     (now0 \<le> now_check t \<and> tick_fs t = env0 \<longrightarrow>
        run_tick a t s0 =
          (\<lparr>run_watcher = fst (Watcher_poll env0 w0), deadline = now0 + polling_rate a,
            effects = [Slept (max 0 (now0 + polling_rate a - now_sleep t))]\<rparr>, None))"
proof -
  have "Watcher_run a env0 now0 [] w = Looping s0 None"
    by (simp add: Watcher_run_unfold [OF base] s0)
  moreover have "Watcher_run a env0 now0 ts w =
      Looping (fst (run_loop a ts s0)) (snd (run_loop a ts s0))"
    by (simp add: Watcher_run_unfold [OF base] s0)
  moreover have "filter is_Ran (effects (fst (run_loop a ts s0))) =
      map (\<lambda>_. Ran (cmd a)) (filter id (loop_polls a ts s0))"
    by (simp add: run_loop_Ran s0)
  moreover have "run_tick a t s0 =
      (\<lparr>run_watcher = fst (Watcher_poll env0 w0), deadline = now0 + polling_rate a,
        effects = [Slept (max 0 (now0 + polling_rate a - now_sleep t))]\<rparr>, None)"
    if "now0 \<le> now_check t" and "tick_fs t = env0"
  proof -
    note again = poll_twice_unchanged [OF base]
    have "now_check t \<ge> deadline s0" using that by (simp add: s0)
    moreover have "snd (Watcher_poll (tick_fs t) (run_watcher s0)) = None"
      using again that by (simp add: s0)
    moreover have "\<not> watcher_changed (fst (Watcher_poll (tick_fs t) (run_watcher s0)))"
      using again that by (simp add: s0)
    ultimately show ?thesis
      using that by (simp add: run_tick_fired) (simp add: s0)
  qed
  ultimately show ?thesis by blast
qed

text \<open>
  The first poll of the example discovers a connected display and sets the flag, and no
  command is run for it. The first tick sees no change; the second sees the display
  disconnected and runs the command once.
\<close>

theorem baseline_never_triggers_witness:
  "Watcher_poll (hdmi_reads line_connected) demo_watcher = (demo_synced, None) \<and>
   start_state demo_synced = \<lparr>run_watcher = demo_synced, deadline = 100, effects = []\<rparr> \<and>
   100 \<le> now_check (demo_tick 100 line_connected) \<and>
   tick_fs (demo_tick 100 line_connected) = hdmi_reads line_connected \<and>
   watcher_changed demo_synced \<and>
   Watcher_run demo_args (hdmi_reads line_connected) 100 [] demo_watcher =
     Looping (start_state demo_synced) None \<and>
   filter is_Ran (effects (fst (run_loop demo_args
       [demo_tick 100 line_connected, demo_tick 101 line_disconnected]
       (start_state demo_synced)))) = [Ran (cmd demo_args)] \<and>
   loop_polls demo_args
       [demo_tick 100 line_connected, demo_tick 101 line_disconnected]
       (start_state demo_synced) = [False, True] \<and>
   run_tick demo_args (demo_tick 100 line_connected) (start_state demo_synced) =
     (\<lparr>run_watcher = fst (Watcher_poll (hdmi_reads line_connected) demo_synced),
       deadline = 100 + polling_rate demo_args,
       effects = [Slept (1 / 5)]\<rparr>, None)"
proof -
  let ?ts = "[demo_tick 100 line_connected, demo_tick 101 line_disconnected]"
  have base: "Watcher_poll (hdmi_reads line_connected) demo_watcher = (demo_synced, None)"
    by code_simp
  have flag: "watcher_changed demo_synced"
    by code_simp
  have s0: "start_state demo_synced = \<lparr>run_watcher = demo_synced, deadline = 100, effects = []\<rparr>"
    by (simp add: start_state_def)
  have polls: "loop_polls demo_args ?ts (start_state demo_synced) = [False, True]"
    by code_simp
  have tick: "100 \<le> now_check (demo_tick 100 line_connected) \<and>
      tick_fs (demo_tick 100 line_connected) = hdmi_reads line_connected"
    by (simp add: demo_tick_def)
  have slept: "max 0 (100 + polling_rate demo_args - now_sleep (demo_tick 100 line_connected)) = 1 / 5"
    by (simp add: demo_tick_def demo_args_def)
  from baseline_never_triggers [OF base s0, of demo_args ?ts "demo_tick 100 line_connected"]
    tick polls slept base flag s0
  show ?thesis by simp
qed

section \<open>Port: successive updates\<close>

lemma Port_updates_snoc:
  "Port_updates (envs @ [env]) p = fst (Port_update env (Port_updates envs p))"
  by (simp add: Port_updates_def)

lemma Port_updates_attr [simp]: "status_attr (Port_updates envs p) = status_attr p"
  by (induction envs rule: rev_induct) (simp_all add: Port_updates_snoc, simp add: Port_updates_def)

lemma status_read_updates [simp]: "status_read env (Port_updates envs p) = status_read env p"
  by (simp add: status_read_def)

lemma Port_updates_status:
  "\<forall>env \<in> set envs. readline env (status_attr p) \<noteq> None \<Longrightarrow> envs \<noteq> [] \<Longrightarrow>
   port_status (Port_updates envs p) = status_read (last envs) p"
proof (induction envs rule: rev_induct)
  case Nil
  then show ?case by simp
next
  case (snoc env envs)
  then obtain line where "readline env (status_attr (Port_updates envs p)) = Some line"
    by auto
  then show ?case
    by (simp add: Port_updates_snoc Port_update_ok status_read_def)
qed

text \<open>
  C3. A fresh port is updated tick after tick, every read succeeding; \<open>envs ! n\<close> is the
  file system at tick \<open>n\<close>, counted from 0. After the update of tick \<open>n\<close> the flag
  \<open>changed\<close> is set exactly when the status read at tick \<open>n\<close> differs from the one read
  at tick \<open>n - 1\<close>; at the first tick the status read is compared with the never-read
  state \<open>None\<close>.
\<close>

theorem changed_iff_status_differs:
  assumes ok: "list_all (\<lambda>env. readline env (status_attr (Port_init path)) \<noteq> None) envs"
    and n: "n < length envs"
  shows "port_changed (Port_updates (take (Suc n) envs) (Port_init path)) \<longleftrightarrow>
     status_read (envs ! n) (Port_init path) \<noteq>
       (if n = 0 then None else status_read (envs ! (n - 1)) (Port_init path))"
proof -
  let ?p = "Port_init path"
  let ?before = "Port_updates (take n envs) ?p"
  from n have "envs ! n \<in> set envs" by simp
  with ok obtain line where line: "readline (envs ! n) (status_attr ?before) = Some line"
    by (auto simp: list_all_iff)
  have split: "take (Suc n) envs = take n envs @ [envs ! n]"
    using n by (simp add: take_Suc_conv_app_nth)
  have now: "status_read (envs ! n) ?p = Some (strip line)"
    using line by (simp add: status_read_def)
  have before: "port_status ?before =
      (if n = 0 then None else status_read (envs ! (n - 1)) ?p)"
  proof (cases n)
    case 0
    then show ?thesis by (simp add: Port_updates_def Port_init_def)
  next
    case (Suc m)
    have "\<forall>env \<in> set (take n envs). readline env (status_attr ?p) \<noteq> None"
      using ok by (auto simp: list_all_iff dest: in_set_takeD)
    moreover have "take n envs \<noteq> []" using n Suc by auto
    ultimately have "port_status ?before = status_read (last (take n envs)) ?p"
      by (rule Port_updates_status)
    also have "last (take n envs) = envs ! (n - 1)"
      using n Suc by (simp add: take_Suc_conv_app_nth)
    finally show ?thesis using Suc by simp
  qed
  show ?thesis
    unfolding split Port_updates_snoc
    by (simp add: Port_update_ok [OF line] now before)
qed

text \<open>
  Three ticks reading connected, connected, disconnected: changed, unchanged, changed.
\<close>

theorem changed_iff_status_differs_witness:
  "list_all (\<lambda>env. readline env (status_attr (Port_init hdmi_path)) \<noteq> None)
     [hdmi_reads line_connected, hdmi_reads line_connected, hdmi_reads line_disconnected] \<and>
   2 < length
     [hdmi_reads line_connected, hdmi_reads line_connected, hdmi_reads line_disconnected] \<and>
   port_changed (Port_updates (take 1
     [hdmi_reads line_connected, hdmi_reads line_connected, hdmi_reads line_disconnected])
     (Port_init hdmi_path)) \<and>
   \<not> port_changed (Port_updates (take 2
     [hdmi_reads line_connected, hdmi_reads line_connected, hdmi_reads line_disconnected])
     (Port_init hdmi_path)) \<and>
   port_changed (Port_updates (take 3
     [hdmi_reads line_connected, hdmi_reads line_connected, hdmi_reads line_disconnected])
     (Port_init hdmi_path))"
proof -
  let ?envs = "[hdmi_reads line_connected, hdmi_reads line_connected, hdmi_reads line_disconnected]"
  let ?p = "Port_init hdmi_path"
  have ok: "list_all (\<lambda>env. readline env (status_attr ?p) \<noteq> None) ?envs"
    by code_simp
  have r0: "status_read (?envs ! 0) ?p = Some ''connected''"
    and r1: "status_read (?envs ! 1) ?p = Some ''connected''"
    and r2: "status_read (?envs ! 2) ?p = Some ''disconnected''"
    by code_simp+
  have "port_changed (Port_updates (take (Suc 0) ?envs) ?p)"
    using changed_iff_status_differs [OF ok, of 0] r0 by simp
  moreover have "\<not> port_changed (Port_updates (take (Suc 1) ?envs) ?p)"
    using changed_iff_status_differs [OF ok, of 1] r0 r1 by simp
  moreover have "port_changed (Port_updates (take (Suc 2) ?envs) ?p)"
    using changed_iff_status_differs [OF ok, of 2] r1 r2 by simp
  ultimately show ?thesis
    using ok by (simp add: numeral_2_eq_2 numeral_3_eq_3)
qed

section \<open>Card: what the reconciliation keeps, adds and removes\<close>

lemma map_of_filter_keys:
  "map_of (filter (\<lambda>e. fst e \<in> A) ps) n = (if n \<in> A then map_of ps n else None)"
  by (induction ps) auto

lemma map_of_fresh_entries:
  "map_of (map (\<lambda>n. (n, f n)) ns) n = (if n \<in> set ns then Some (f n) else None)"
  by (induction ns) auto

lemma map_of_reconciled:
  "map_of (reconciled_ports names c) n =
     (if n \<in> set names then
        (if n \<in> fst ` set (card_ports c) then map_of (card_ports c) n
         else Some (Port_init (path_join (card_path c) n)))
      else None)"
proof (cases "n \<in> fst ` set (card_ports c)")
  case True
  then obtain p where "map_of (card_ports c) n = Some p"
    by (metis domD dom_map_of_conv_image_fst)
  then show ?thesis
    using True
    by (simp add: reconciled_ports_def map_add_def map_of_filter_keys map_of_fresh_entries)
next
  case False
  then have "map_of (card_ports c) n = None"
    by (simp add: map_of_eq_None_iff)
  then show ?thesis
    using False
    by (simp add: reconciled_ports_def map_add_def map_of_filter_keys map_of_fresh_entries)
qed

lemma reconciled_ports_retained:
  "filter (\<lambda>e. fst e \<in> fst ` set (card_ports c)) (reconciled_ports names c) =
   filter (\<lambda>e. fst e \<in> set names) (card_ports c)"
proof -
  have "filter (\<lambda>e. fst e \<in> fst ` set (card_ports c))
      (filter (\<lambda>e. fst e \<in> set names) (card_ports c)) =
      filter (\<lambda>e. fst e \<in> set names) (card_ports c)"
    by (auto intro!: filter_cong)
  moreover have "filter (\<lambda>e. fst e \<in> fst ` set (card_ports c))
      (map (\<lambda>n. (n, Port_init (path_join (card_path c) n)))
        (set_minus (remdups names) (remdups (map fst (card_ports c))))) = []"
    by (auto simp: filter_empty_conv)
  ultimately show ?thesis
    unfolding reconciled_ports_def filter_append by simp
qed

text \<open>
  C10. Let the card's directory list \<open>names\<close>. The reconciliation raises nothing and
  leaves a dictionary whose keys are exactly \<open>names\<close>. The entries under names known
  before are the old entries under names still listed, in the same order and with the
  same port values: a name known and listed maps to the port it mapped to, a name listed
  and not known maps to a fresh port at its path, and a name known and no longer listed
  maps to nothing. (Ports are values here; that no port object is touched shows as no
  port value changing.)
\<close>

theorem reconcile_frame:
  assumes "Card_enum_ports env c = Some names"
  shows "snd (Card_reconcile env c) = None \<and>
     card_path (fst (Card_reconcile env c)) = card_path c \<and>
     fst ` set (card_ports (fst (Card_reconcile env c))) = set names \<and>
     filter (\<lambda>e. fst e \<in> fst ` set (card_ports c)) (card_ports (fst (Card_reconcile env c))) =
       filter (\<lambda>e. fst e \<in> set names) (card_ports c) \<and>
     (\<forall>n \<in> fst ` set (card_ports c) \<inter> set names.
        map_of (card_ports (fst (Card_reconcile env c))) n = map_of (card_ports c) n) \<and>
     (\<forall>n \<in> set names - fst ` set (card_ports c).
        map_of (card_ports (fst (Card_reconcile env c))) n =
          Some (Port_init (path_join (card_path c) n))) \<and>
     (\<forall>n \<in> fst ` set (card_ports c) - set names.
        map_of (card_ports (fst (Card_reconcile env c))) n = None)"
  by (simp add: Card_reconcile_ok [OF assms] reconciled_ports_keys reconciled_ports_retained
      map_of_reconciled)

text \<open>
  The card knows HDMI-A-1 and DP-1, both read before; the directory lists DP-2 and
  HDMI-A-1. HDMI-A-1 keeps its state, DP-2 is fresh, DP-1 is gone.
\<close>

theorem reconcile_frame_witness:
  "Card_enum_ports dp1_replaced two_ports = Some [dp2, hdmi] \<and>
   snd (Card_reconcile dp1_replaced two_ports) = None \<and>
   fst ` set (card_ports (fst (Card_reconcile dp1_replaced two_ports))) = {dp2, hdmi} \<and>
   map_of (card_ports (fst (Card_reconcile dp1_replaced two_ports))) hdmi =
     Some (hdmi_seen ''disconnected'' (Some ''connected'') True) \<and>
   map_of (card_ports (fst (Card_reconcile dp1_replaced two_ports))) dp2 =
     Some (Port_init ''/sys/class/drm/card0/card0-DP-2'') \<and>
   map_of (card_ports (fst (Card_reconcile dp1_replaced two_ports))) dp1 = None"
proof -
  have names: "Card_enum_ports dp1_replaced two_ports = Some [dp2, hdmi]"
    by code_simp
  have known: "fst ` set (card_ports two_ports) = {hdmi, dp1}"
    by (simp add: two_ports_def)
  have distinct: "hdmi \<noteq> dp1" "hdmi \<noteq> dp2" "dp1 \<noteq> dp2"
    by (simp_all add: hdmi_def dp1_def dp2_def)
  have old: "map_of (card_ports two_ports) hdmi =
      Some (hdmi_seen ''disconnected'' (Some ''connected'') True)"
    by (simp add: two_ports_def)
  have path: "path_join (card_path two_ports) dp2 = ''/sys/class/drm/card0/card0-DP-2''"
    by code_simp
  from reconcile_frame [OF names] known distinct old path
  show ?thesis
    using names by auto
qed

section \<open>Read failures\<close>

lemma readable_iff: "readable env ps \<longleftrightarrow> (\<forall>e \<in> set ps. readline env (status_attr (snd e)) \<noteq> None)"
  by (simp add: readable_def list_all_iff)

text \<open>
  C2, as the code has it. On a tick the read of the status attribute of port \<open>p\<close> is
  attempted when the iteration polls, the cards before the port's card are updated
  without an exception, the card's directory can be listed, and the ports before \<open>p\<close>
  in the card's dictionary can be read. When that read fails, \<open>Port.update\<close> leaves
  \<open>status\<close> and the previous status as they were, sets \<open>changed\<close> to false, and
  raises. Nothing catches the exception: the card's update raises this very error,
  leaving \<open>p\<close> as \<open>Port.update\<close> left it and the ports after it untouched; the poll
  raises it, leaving the cards after it untouched; and the loop ends with it, the
  deadline and the effects as they were and the remaining iterations not run.
\<close>

theorem read_failure_propagates:
  assumes fail: "readline env (status_attr p) = None"
    and listed: "snd (Card_reconcile env c) = None"
    and held: "card_ports (fst (Card_reconcile env c)) = before @ (n, p) # after"
    and reached: "list_all (\<lambda>e. readline env (status_attr (snd e)) \<noteq> None) before"
    and card: "watcher_cards w = cards_before @ c # cards_after"
    and cards_ok: "list_all (\<lambda>d. snd (Card_update env d) = None) cards_before"
    and tick: "tick_fs t = env" "run_watcher s = w" "now_check t \<ge> deadline s"
  shows "Port_update env p = (p\<lparr>port_changed := False\<rparr>, Some (OSError (status_attr p))) \<and>
     snd (Card_update env c) = Some (OSError (status_attr p)) \<and>
     card_ports (fst (Card_update env c)) =
       map (\<lambda>e. (fst e, fst (Port_update env (snd e)))) before @
       (n, p\<lparr>port_changed := False\<rparr>) # after \<and>
     snd (Watcher_poll env w) = Some (OSError (status_attr p)) \<and>
     watcher_cards (fst (Watcher_poll env w)) =
       map (\<lambda>d. fst (Card_update env d)) cards_before @ fst (Card_update env c) # cards_after \<and>
     run_loop a (t # ts) s =
       (s\<lparr>run_watcher := fst (Watcher_poll env w)\<rparr>, Some (OSError (status_attr p)))"
proof -
  from listed obtain names where names: "Card_enum_ports env c = Some names"
    by (cases "Card_enum_ports env c") (simp_all add: Card_reconcile_fails)
  from held have ports: "reconciled_ports names c = before @ (n, p) # after"
    by (simp add: Card_reconcile_ok [OF names])
  from reached have rd: "readable env before"
    by (simp add: readable_def)
  note stop = update_ports_stops [OF rd fail, of n after]
  have c1: "snd (Card_update env c) = Some (OSError (status_attr p))"
    by (simp add: Card_update_unfold [OF names] ports stop)
  have c2: "card_ports (fst (Card_update env c)) =
      map (\<lambda>e. (fst e, fst (Port_update env (snd e)))) before @
      (n, p\<lparr>port_changed := False\<rparr>) # after"
    by (simp add: Card_update_unfold [OF names] ports stop)
  note cards = update_cards_stops [OF cards_ok c1, of cards_after False]
  have w1: "snd (Watcher_poll env w) = Some (OSError (status_attr p))"
    by (simp add: Watcher_poll_unfold card cards)
  have w2: "watcher_cards (fst (Watcher_poll env w)) =
      map (\<lambda>d. fst (Card_update env d)) cards_before @ fst (Card_update env c) # cards_after"
    by (simp add: Watcher_poll_unfold card cards)
  have "run_tick a t s =
      (s\<lparr>run_watcher := fst (Watcher_poll env w)\<rparr>, Some (OSError (status_attr p)))"
    using tick w1 by (simp add: run_tick_poll_fails)
  then have loop: "run_loop a (t # ts) s =
      (s\<lparr>run_watcher := fst (Watcher_poll env w)\<rparr>, Some (OSError (status_attr p)))"
    by (simp add: run_loop_Cons_fails)
  show ?thesis
    by (intro conjI Port_update_fails [OF fail] c1 c2 w1 w2 loop)
qed

text \<open>
  Both connectors were read on the tick before; now HDMI-A-1 reads connected and the
  attribute of DP-1 has become unreadable. HDMI-A-1 is updated, DP-1 keeps its status and
  its previous status with its flag cleared, and the card's update, the poll and the loop
  end with the error of DP-1's attribute.
\<close>

theorem read_failure_propagates_witness:
  "readline dp1_unreadable (status_attr (dp1_seen ''disconnected'' None True)) = None \<and>
   snd (Card_reconcile dp1_unreadable two_ports) = None \<and>
   card_ports (fst (Card_reconcile dp1_unreadable two_ports)) =
     [(hdmi, hdmi_seen ''disconnected'' (Some ''connected'') True)] @
     (dp1, dp1_seen ''disconnected'' None True) # [] \<and>
   list_all (\<lambda>e. readline dp1_unreadable (status_attr (snd e)) \<noteq> None)
     [(hdmi, hdmi_seen ''disconnected'' (Some ''connected'') True)] \<and>
   watcher_cards two_ports_watcher = [] @ two_ports # [] \<and>
   list_all (\<lambda>d. snd (Card_update dp1_unreadable d) = None) [] \<and>
   tick_fs (dp1_unreadable_tick 100) = dp1_unreadable \<and>
   run_watcher (start_state two_ports_watcher) = two_ports_watcher \<and>
   now_check (dp1_unreadable_tick 100) \<ge> deadline (start_state two_ports_watcher) \<and>
   Port_update dp1_unreadable (dp1_seen ''disconnected'' None True) =
     (dp1_seen ''disconnected'' None False, Some (OSError dp1_status)) \<and>
   snd (Card_update dp1_unreadable two_ports) = Some (OSError dp1_status) \<and>
   card_ports (fst (Card_update dp1_unreadable two_ports)) =
     [(hdmi, hdmi_seen ''connected'' (Some ''disconnected'') True),
      (dp1, dp1_seen ''disconnected'' None False)] \<and>
   snd (Watcher_poll dp1_unreadable two_ports_watcher) = Some (OSError dp1_status) \<and>
   watcher_cards (fst (Watcher_poll dp1_unreadable two_ports_watcher)) =
     [fst (Card_update dp1_unreadable two_ports)] \<and>
   run_loop demo_args [dp1_unreadable_tick 100, dp1_unreadable_tick 101]
       (start_state two_ports_watcher) =
     (\<lparr>run_watcher = fst (Watcher_poll dp1_unreadable two_ports_watcher),
       deadline = 100, effects = []\<rparr>,
      Some (OSError dp1_status))"
proof -
  let ?h = "hdmi_seen ''disconnected'' (Some ''connected'') True"
  let ?p = "dp1_seen ''disconnected'' None True"
  let ?w = "two_ports_watcher"
  have fail: "readline dp1_unreadable (status_attr ?p) = None"
    by code_simp
  have listed: "snd (Card_reconcile dp1_unreadable two_ports) = None"
    by code_simp
  have held: "card_ports (fst (Card_reconcile dp1_unreadable two_ports)) =
      [(hdmi, ?h)] @ (dp1, ?p) # []"
    by code_simp
  have reached: "list_all (\<lambda>e. readline dp1_unreadable (status_attr (snd e)) \<noteq> None)
      [(hdmi, ?h)]"
    by code_simp
  have card: "watcher_cards ?w = [] @ two_ports # []"
    by (simp add: two_ports_watcher_def)
  have cards_ok: "list_all (\<lambda>d. snd (Card_update dp1_unreadable d) = None) []"
    by simp
  have tick: "tick_fs (dp1_unreadable_tick 100) = dp1_unreadable"
    "run_watcher (start_state ?w) = ?w"
    "now_check (dp1_unreadable_tick 100) \<ge> deadline (start_state ?w)"
    by (simp_all add: dp1_unreadable_tick_def start_state_def)
  have after: "?p\<lparr>port_changed := False\<rparr> = dp1_seen ''disconnected'' None False"
    by (simp add: dp1_seen_def)
  have attr: "status_attr ?p = dp1_status"
    by code_simp
  have read: "fst (Port_update dp1_unreadable ?h) =
      hdmi_seen ''connected'' (Some ''disconnected'') True"
    by code_simp
  have state: "(start_state ?w)\<lparr>run_watcher := fst (Watcher_poll dp1_unreadable ?w)\<rparr> =
      \<lparr>run_watcher = fst (Watcher_poll dp1_unreadable ?w), deadline = 100, effects = []\<rparr>"
    by (simp add: start_state_def)
  note inst = read_failure_propagates [OF fail listed held reached card cards_ok tick,
      of demo_args "[dp1_unreadable_tick 101]"]
  from inst have port: "Port_update dp1_unreadable ?p =
      (dp1_seen ''disconnected'' None False, Some (OSError dp1_status))"
    by (simp add: after attr)
  from inst have c1: "snd (Card_update dp1_unreadable two_ports) = Some (OSError dp1_status)"
    by (simp add: attr)
  from inst have c2: "card_ports (fst (Card_update dp1_unreadable two_ports)) =
      [(hdmi, hdmi_seen ''connected'' (Some ''disconnected'') True),
       (dp1, dp1_seen ''disconnected'' None False)]"
    by (simp add: after read)
  from inst have w1: "snd (Watcher_poll dp1_unreadable ?w) = Some (OSError dp1_status)"
    by (simp add: attr)
  from inst have w2: "watcher_cards (fst (Watcher_poll dp1_unreadable ?w)) =
      [fst (Card_update dp1_unreadable two_ports)]"
    by simp
  from inst have loop: "run_loop demo_args [dp1_unreadable_tick 100, dp1_unreadable_tick 101]
      (start_state ?w) =
      (\<lparr>run_watcher = fst (Watcher_poll dp1_unreadable ?w), deadline = 100, effects = []\<rparr>,
       Some (OSError dp1_status))"
    by (simp add: attr state)
  show ?thesis
    by (intro conjI fail listed held reached card cards_ok tick port c1 c2 w1 w2 loop)
qed

text \<open>
  C2 as stated fails. Both connectors were read on the tick before; now the attribute of
  HDMI-A-1 cannot be read, while the one of DP-1 reads connected. Of two iterations
  offered, the first ends the loop with the error: HDMI-A-1 keeps its status with its
  flag cleared, DP-1 is not read at all (it still shows disconnected, and the flag of
  the tick before), the deadline does not move and the loop does not even sleep.
\<close>

theorem read_failure_aborts_tick:
  "run_loop demo_args [unreadable_tick 100, unreadable_tick 101] (start_state two_ports_watcher) =
     (\<lparr>run_watcher =
         \<lparr>watcher_cards =
            [\<lparr>card_path = card0_path,
              card_ports = [(hdmi, hdmi_seen ''disconnected'' (Some ''connected'') False),
                            (dp1, dp1_seen ''disconnected'' None True)],
              card_changed = False\<rparr>],
          watcher_changed = False\<rparr>,
       deadline = 100, effects = []\<rparr>,
      Some (OSError hdmi_status))"
  by code_simp

section \<open>Port: the status property\<close>

text \<open>
  C9, as the code has it. The status a port shows is \<open>none\<close> while it has never been
  read. After an update it is the text just read with the surrounding white space
  removed, whatever that text is, or \<open>none\<close> when nothing is left of it; when the read
  fails it is what it was before.
\<close>

theorem status_is_last_text_read:
  "Port_status (Port_init path) = ''none'' \<and>
   Port_status (fst (Port_update env p)) =
     (case readline env (status_attr p) of
        None \<Rightarrow> Port_status p
      | Some line \<Rightarrow> if strip line = [] then ''none'' else strip line)"
  by (simp add: Port_status_def Port_init_def Port_update_ok Port_update_fails
      split: option.split)

text \<open>
  C9 as stated fails. A status attribute that reads \<open>foo\<close> gives the status
  \<open>foo\<close>, which is none of connected, disconnected, unknown; and a port never read
  shows \<open>none\<close>.
\<close>

theorem status_outside_domain:
  "Port_status (fst (Port_update (hdmi_reads ''foo'') (Port_init hdmi_path))) = ''foo'' \<and>
   Port_status (fst (Port_update (hdmi_reads ''foo'') (Port_init hdmi_path))) \<notin>
     {''connected'', ''disconnected'', ''unknown''} \<and>
   Port_status (Port_init hdmi_path) = ''none''"
  by code_simp

end
